theory Spec2Isabelle
  imports Complex_Main
begin

section \<open>Errors\<close>

text \<open>
  The Python exceptions the modelled code can raise. A function that can raise returns
  \<open>error + 'a\<close>, with \<open>Inl\<close> for the exception.
\<close>

datatype error =
    ValueError
  | KeyError
  | IndexError
  | NotImplementedError
  | ZeroDivisionError
  | RuntimeError
  | UnitsError

section \<open>Camera geometry (src/ctapipe/io/camera.py)\<close>

type_synonym point = "real \<times> real"

text \<open>
  An astropy \<open>Quantity\<close> array: the plain numbers (\<open>.value\<close>) and the unit (\<open>.unit\<close>).
  The unit type is left open; the few unit operations the code needs are parameters of
  the functions that use them.
\<close>

record 'u Quantity =
  q_value :: "real list"
  q_unit :: 'u

record ('c, 'u) CameraGeometry =
  cam_id :: 'c
  pix_id :: "nat list"
  pix_x :: "'u Quantity"
  pix_y :: "'u Quantity"
  pix_area :: "'u Quantity"
  neighbors :: "nat list list"
  pix_type :: string

type_synonym mat2 = "(real \<times> real) \<times> (real \<times> real)"

definition transpose2 :: "mat2 \<Rightarrow> mat2" where
  "transpose2 m = (case m of ((a, b), (c, d)) \<Rightarrow> ((a, c), (b, d)))"

text \<open>
  \<open>np.dot(M, [xs, ys])\<close> for a 2x2 matrix and two rows: the two rows of the product.
  Rows of different lengths do not form a 2xN array and the product raises.
\<close>

definition dot2 :: "mat2 \<Rightarrow> real list \<Rightarrow> real list \<Rightarrow> error + (real list \<times> real list)" where
  "dot2 m xs ys =
     (if length xs \<noteq> length ys then Inl ValueError
      else case m of ((a, b), (c, d)) \<Rightarrow>
        Inr (map (\<lambda>(x, y). a * x + b * y) (zip xs ys),
             map (\<lambda>(x, y). c * x + d * y) (zip xs ys)))"

text \<open>
  \<open>CameraGeometry.rotate\<close>. The helper \<open>rotation_matrix_2d\<close> lives in
  \<open>ctapipe.core.linalg\<close>, outside the sources at hand, so it is the parameter
  \<open>rotation_matrix_2d\<close>: it may raise (an angle that cannot be converted) or give a matrix.
  The object is mutated in place; the model returns the updated record. The second
  assignment reads \<open>self.pix_x.unit\<close> after the first one, as the source does.
\<close>

definition rotate ::
  "('a \<Rightarrow> error + mat2) \<Rightarrow> ('c, 'u) CameraGeometry \<Rightarrow> 'a \<Rightarrow> error + ('c, 'u) CameraGeometry" where
  "rotate rotation_matrix_2d self angle =
     (case rotation_matrix_2d angle of
        Inl e \<Rightarrow> Inl e
      | Inr rotmat \<Rightarrow>
          (case dot2 (transpose2 rotmat) (q_value (pix_x self)) (q_value (pix_y self)) of
             Inl e \<Rightarrow> Inl e
           | Inr rotated \<Rightarrow>
               (let self1 = self\<lparr>pix_x := \<lparr>q_value = fst rotated, q_unit = q_unit (pix_x self)\<rparr>\<rparr>;
                    self2 = self1\<lparr>pix_y := \<lparr>q_value = snd rotated, q_unit = q_unit (pix_x self1)\<rparr>\<rparr>
                in Inr self2)))"

text \<open>
  Modelled from the spec: \<open>rotation_matrix_2d\<close> of \<open>ctapipe.core.linalg\<close> is not among
  the sources; the spec calls it a 2D rotation matrix about the coordinate origin. The
  angle is taken in radians.
\<close>

definition rotation_matrix_2d_spec :: "real \<Rightarrow> error + mat2" where
  "rotation_matrix_2d_spec psi = Inr ((cos psi, - sin psi), (sin psi, cos psi))"

subsection \<open>Neighbour finder\<close>

definition distance :: "point \<Rightarrow> point \<Rightarrow> real" where
  "distance p q = sqrt ((fst p - fst q)\<^sup>2 + (snd p - snd q)\<^sup>2)"

text \<open>
  \<open>KDTree.query_ball_point(p, r)\<close>: the indices of all data points within distance \<open>r\<close>
  of \<open>p\<close>, the bound included. The tree returns them in an order of its own; the model
  lists them in increasing order.
\<close>

definition query_ball_point :: "point list \<Rightarrow> point \<Rightarrow> real \<Rightarrow> nat list" where
  "query_ball_point data p r = filter (\<lambda>j. distance (data ! j) p \<le> r) [0..<length data]"

text \<open>Python's \<open>list.remove\<close>: drops the first occurrence, raises when there is none.\<close>

definition list_remove :: "nat list \<Rightarrow> nat \<Rightarrow> error + nat list" where
  "list_remove nn ii = (if ii \<in> set nn then Inr (remove1 ii nn) else Inl ValueError)"

text \<open>The loop \<open>for nn, ii in zip(neighbors, indices): nn.remove(ii)\<close>.\<close>

fun remove_self :: "(nat list \<times> nat) list \<Rightarrow> error + nat list list" where
  "remove_self [] = Inr []"
| "remove_self ((nn, ii) # rest) =
     (case list_remove nn ii of
        Inl e \<Rightarrow> Inl e
      | Inr nn' \<Rightarrow> (case remove_self rest of Inl e \<Rightarrow> Inl e | Inr r \<Rightarrow> Inr (nn' # r)))"

definition find_neighbor_pixels :: "real list \<Rightarrow> real list \<Rightarrow> real \<Rightarrow> error + nat list list" where
  "find_neighbor_pixels px py rad =
     (if length px \<noteq> length py then Inl ValueError
      else
        let points = zip px py;
            indices = [0..<length px];
            nbrs = map (\<lambda>p. query_ball_point points p rad) points
        in remove_self (zip nbrs indices))"

subsection \<open>Guessing the camera type\<close>

definition npix_to_type :: "(nat \<times> (string \<times> string)) list" where
  "npix_to_type =
     [(2048, (''SST'', ''rectangular'')),
      (1141, (''MST'', ''hexagonal'')),
      (1855, (''LST'', ''hexagonal'')),
      (11328, (''SST'', ''rectangular''))]"

definition guess_camera_type :: "nat \<Rightarrow> string \<times> string" where
  "guess_camera_type npix =
     (case map_of npix_to_type npix of None \<Rightarrow> (''unknown'', ''hexagonal'') | Some t \<Rightarrow> t)"

definition startswith :: "string \<Rightarrow> string \<Rightarrow> bool" where
  "startswith s p = (take (length p) s = p)"

text \<open>Indexing a 1-D array at a non-negative position.\<close>

definition getitem :: "real list \<Rightarrow> nat \<Rightarrow> error + real" where
  "getitem xs i = (if i < length xs then Inr (xs ! i) else Inl IndexError)"

text \<open>
  \<open>guess_camera_geometry\<close>. Three operations of the units library are parameters:
  \<open>is_length u\<close> (the check of the \<open>quantity_input\<close> decorator against metres),
  \<open>to_unit u v\<close> (the factor that converts a value in \<open>u\<close> to \<open>v\<close>, used when \<open>dy ** 2\<close> is
  added to \<open>dx ** 2\<close>) and \<open>squared u\<close> (the unit of an area).
\<close>

definition guess_camera_geometry ::
  "('u \<Rightarrow> bool) \<Rightarrow> ('u \<Rightarrow> 'u \<Rightarrow> real) \<Rightarrow> ('u \<Rightarrow> 'u) \<Rightarrow>
   'u Quantity \<Rightarrow> 'u Quantity \<Rightarrow> error + (string, 'u) CameraGeometry" where
  "guess_camera_geometry is_length to_unit squared px py =
     (if \<not> is_length (q_unit px) \<or> \<not> is_length (q_unit py) then Inl UnitsError
      else
        let (cam, ptype) = guess_camera_type (length (q_value px)) in
        (case getitem (q_value px) 1 of Inl e \<Rightarrow> Inl e | Inr x1 \<Rightarrow>
        (case getitem (q_value px) 0 of Inl e \<Rightarrow> Inl e | Inr x0 \<Rightarrow>
        (case getitem (q_value py) 1 of Inl e \<Rightarrow> Inl e | Inr y1 \<Rightarrow>
        (case getitem (q_value py) 0 of Inl e \<Rightarrow> Inl e | Inr y0 \<Rightarrow>
        (let dx = x1 - x0;
             dy = y1 - y0;
             dist = sqrt (dx\<^sup>2 + (dy * to_unit (q_unit py) (q_unit px))\<^sup>2)
         in
         (case (if startswith ptype ''hex''
                then Inr ((dist / sqrt 3)\<^sup>2 * (3 * sqrt 3 / 2))
                else if startswith ptype ''rect''
                then Inr (dist\<^sup>2)
                else Inl KeyError) of
            Inl e \<Rightarrow> Inl e
          | Inr area \<Rightarrow>
              (case find_neighbor_pixels (q_value px) (q_value py) (dx + 1 / 100) of
                 Inl e \<Rightarrow> Inl e
               | Inr nbrs \<Rightarrow>
                   Inr \<lparr>cam_id = cam,
                        pix_id = [0..<length (q_value px)],
                        pix_x = px,
                        pix_y = py,
                        pix_area = \<lparr>q_value = replicate (length (q_value px)) area,
                                    q_unit = squared (q_unit px)\<rparr>,
                        neighbors = nbrs,
                        pix_type = ptype\<rparr>))))))))"

section \<open>The geometry library used by the muon integrator\<close>

text \<open>
  \<open>muon_integrator.py\<close> builds polygons and lines with the shapely library, which is
  not part of the repository. What the code uses of it is modelled here over the reals:
  the kinds of geometry an intersection can be, their coordinate sequence, the
  \<open>LineString\<close> constructor and the arc length.

  A geometry is a point, a line through a list of coordinates, or a collection of
  parts. The empty collection is the empty geometry, which the era's library returns
  for an intersection that misses.
\<close>

datatype geometry =
    Point point
  | LineString "point list"
  | GeometryCollection "geometry list"

text \<open>
  \<open>geom.coords\<close>: a point and a line have a coordinate sequence; a collection of parts
  (the empty one too) has none and the access raises.
\<close>

definition coords :: "geometry \<Rightarrow> error + point list" where
  "coords g =
     (case g of
        Point p \<Rightarrow> Inr [p]
      | LineString cs \<Rightarrow> Inr cs
      | GeometryCollection gs \<Rightarrow> Inl NotImplementedError)"

text \<open>
  The constructor \<open>LineString(coordinates)\<close>: a line needs at least two coordinate
  tuples, and a single one raises. (No coordinate at all builds the empty line.)
\<close>

definition new_LineString :: "point list \<Rightarrow> error + geometry" where
  "new_LineString cs = (if length cs = 1 then Inl ValueError else Inr (LineString cs))"

fun path_length :: "point list \<Rightarrow> real" where
  "path_length (p # q # ps) = distance p q + path_length (q # ps)"
| "path_length [p] = 0"
| "path_length [] = 0"

text \<open>\<open>geom.length\<close>: the arc length; a point has none, parts add up.\<close>

fun glength :: "geometry \<Rightarrow> real" where
  "glength (Point p) = 0"
| "glength (LineString cs) = path_length cs"
| "glength (GeometryCollection gs) = sum_list (map glength gs)"

subsection \<open>Intersection of a segment with a convex polygon\<close>

text \<open>
  \<open>Polygon.intersection(LineString)\<close> is a parameter of the functions below. For the
  evaluations on concrete polygons it is instantiated by \<open>convex_intersection\<close>: the part
  of a two-point line inside a convex polygon, found by cutting the parameter interval
  \<open>[0, 1]\<close> of the segment with the half-plane of each edge. The result is the empty
  geometry, a point, or a line with two coordinates. A polygon without area (no
  points, or all on one line) gives the empty geometry.
\<close>

definition cross :: "point \<Rightarrow> point \<Rightarrow> real" where
  "cross u v = fst u * snd v - snd u * fst v"

definition vec :: "point \<Rightarrow> point \<Rightarrow> point" where
  "vec a b = (fst b - fst a, snd b - snd a)"

definition edges :: "point list \<Rightarrow> (point \<times> point) list" where
  "edges ps = (case ps of [] \<Rightarrow> [] | p # rest \<Rightarrow> zip ps (rest @ [p]))"

definition signed_area2 :: "point list \<Rightarrow> real" where
  "signed_area2 ps = sum_list (map (\<lambda>(a, b). cross a b) (edges ps))"

fun clip_edge :: "point \<Rightarrow> point \<Rightarrow> point \<times> point \<Rightarrow> (real \<times> real) option \<Rightarrow> (real \<times> real) option" where
  "clip_edge p0 d (a, b) None = None"
| "clip_edge p0 d (a, b) (Some (lo, hi)) =
     (let c0 = cross (vec a b) (vec a p0);
          c1 = cross (vec a b) d
      in if c1 = 0 then (if c0 < 0 then None else Some (lo, hi))
         else if 0 < c1 then (if hi < - c0 / c1 then None else Some (max lo (- c0 / c1), hi))
         else (if - c0 / c1 < lo then None else Some (lo, min hi (- c0 / c1))))"

definition along :: "point \<Rightarrow> point \<Rightarrow> real \<Rightarrow> point" where
  "along p0 d t = (fst p0 + t * fst d, snd p0 + t * snd d)"

definition convex_intersection :: "point list \<Rightarrow> point list \<Rightarrow> error + geometry" where
  "convex_intersection poly line =
     (case line of
        [p0, p1] \<Rightarrow>
          (let a2 = signed_area2 poly;
               ccw = (if a2 < 0 then rev poly else poly)
           in if a2 = 0 then Inr (GeometryCollection [])
              else (case fold (clip_edge p0 (vec p0 p1)) (edges ccw) (Some (0, 1)) of
                      None \<Rightarrow> Inr (GeometryCollection [])
                    | Some (lo, hi) \<Rightarrow>
                        if lo = hi then Inr (Point (along p0 (vec p0 p1) lo))
                        else Inr (LineString [along p0 (vec p0 p1) lo, along p0 (vec p0 p1) hi])))
      | _ \<Rightarrow> Inl ValueError)"

section \<open>The muon line integrator (src/ctapipe/calib/array/muon_integrator.py)\<close>

text \<open>
  The object holds the two polygons (as their point lists), the pixel width and the
  number of angular bins per pixel width.
\<close>

record MuonLineIntegrate =
  mirror :: "point list"
  hole :: "point list"
  pixel_width :: real
  oversample_bins :: int

definition dir_to_line :: "real \<Rightarrow> real \<Rightarrow> real \<Rightarrow> real \<Rightarrow> point" where
  "dir_to_line centre_x centre_y angle len =
     (let del_x = len * sin angle;
          del_y = len * cos angle;
          x1 = centre_x + del_x;
          y1 = centre_y + del_y
      in (x1, y1))"

text \<open>
  \<open>intersect_polygon\<close>. The first \<open>try\<close> covers the intersection with the mirror and its
  coordinate sequence only: any exception there returns 0 at once. The line built from
  these coordinates is outside the \<open>try\<close>, so its exception leaves the function. The
  second \<open>try\<close> covers the intersection with the hole, its coordinates, the line built
  from them and its length: any exception there makes the hole's length 0.
\<close>

definition intersect_polygon ::
  "(point list \<Rightarrow> point list \<Rightarrow> error + geometry) \<Rightarrow> MuonLineIntegrate \<Rightarrow>
   real \<Rightarrow> real \<Rightarrow> real \<Rightarrow> error + real" where
  "intersect_polygon intersection self impact_x impact_y angle =
     (let line = [(impact_x, impact_y), dir_to_line impact_x impact_y angle 100] in
      case (case intersection (mirror self) line of Inl e \<Rightarrow> Inl e | Inr g \<Rightarrow> coords g) of
        Inl e \<Rightarrow> Inr 0
      | Inr intersection_line \<Rightarrow>
          (case new_LineString intersection_line of
             Inl e \<Rightarrow> Inl e
           | Inr line_intersect \<Rightarrow>
               (let length_hole =
                      (case intersection (hole self) line of
                         Inl e \<Rightarrow> 0
                       | Inr g \<Rightarrow>
                           (case coords g of
                              Inl e \<Rightarrow> 0
                            | Inr intersection_hole \<Rightarrow>
                                (case new_LineString intersection_hole of
                                   Inl e \<Rightarrow> 0
                                 | Inr hole_intersect \<Rightarrow> glength hole_intersect)))
                in Inr (glength line_intersect - length_hole))))"

subsection \<open>The angular profile\<close>

text \<open>Python's \<open>int\<close> of a float: towards zero.\<close>

definition py_int :: "real \<Rightarrow> int" where
  "py_int x = (if 0 \<le> x then \<lfloor>x\<rfloor> else \<lceil>x\<rceil>)"

text \<open>
  \<open>np.linspace(start, stop, num)\<close>, end point included: a negative number of samples
  raises, none gives the empty array, one gives the start alone.
\<close>

definition linspace :: "real \<Rightarrow> real \<Rightarrow> int \<Rightarrow> error + real list" where
  "linspace start stop num =
     (if num < 0 then Inl ValueError
      else if num = 1 then Inr [start]
      else Inr (map (\<lambda>i. start + real i * ((stop - start) / real (nat num - 1))) [0..<nat num]))"

text \<open>\<open>np.ones(n)\<close>.\<close>

definition ones :: "int \<Rightarrow> error + real list" where
  "ones n = (if n < 0 then Inl ValueError else Inr (replicate (nat n) 1))"

text \<open>
  \<open>correlate1d(input, weights, mode="wrap")\<close> of scipy.ndimage, origin 0: output \<open>i\<close> is
  the sum over the window that starts \<open>len(weights) // 2\<close> places to the left of \<open>i\<close>,
  the input being continued periodically. No weights at all raise.
\<close>

definition correlate1d_wrap :: "real list \<Rightarrow> real list \<Rightarrow> error + real list" where
  "correlate1d_wrap input weights =
     (if weights = [] then Inl RuntimeError
      else
        let n = length input;
            size1 = length weights div 2
        in Inr (map (\<lambda>i. sum_list (map (\<lambda>j. weights ! j *
                              input ! nat ((int i + int j - int size1) mod int n))
                            [0..<length weights]))
                    [0..<n]))"

text \<open>The loop \<open>for a in ang: l[i] = self.intersect_polygon(impact_x, impact_y, a)\<close>.\<close>

fun fill_lengths :: "(real \<Rightarrow> error + real) \<Rightarrow> real list \<Rightarrow> error + real list" where
  "fill_lengths f [] = Inr []"
| "fill_lengths f (a # ang) =
     (case f a of
        Inl e \<Rightarrow> Inl e
      | Inr v \<Rightarrow> (case fill_lengths f ang of Inl e \<Rightarrow> Inl e | Inr l \<Rightarrow> Inr (v # l)))"

definition plot_pos ::
  "(point list \<Rightarrow> point list \<Rightarrow> error + geometry) \<Rightarrow> MuonLineIntegrate \<Rightarrow>
   real \<Rightarrow> real \<Rightarrow> real \<Rightarrow> error + (real list \<times> real list)" where
  "plot_pos intersection self impact_x impact_y radius =
     (if pixel_width self = 0 then Inl ZeroDivisionError
      else
        let bins = py_int ((2 * pi * radius) / pixel_width self) * oversample_bins self in
        (case linspace 0 (2 * pi) bins of
           Inl e \<Rightarrow> Inl e
         | Inr ang \<Rightarrow>
             (case fill_lengths (intersect_polygon intersection self impact_x impact_y) ang of
                Inl e \<Rightarrow> Inl e
              | Inr l \<Rightarrow>
                  (case ones (oversample_bins self) of
                     Inl e \<Rightarrow> Inl e
                   | Inr w \<Rightarrow>
                       (case correlate1d_wrap l w of
                          Inl e \<Rightarrow> Inl e
                        | Inr l' \<Rightarrow>
                            Inr (ang, map (\<lambda>v. v / real_of_int (oversample_bins self)) l'))))))"

subsection \<open>The predicted image\<close>

text \<open>
  \<open>np.arctan2(x1, x2)\<close> over the reals: the angle of the point \<open>(x2, x1)\<close>, in
  \<open>(-pi, pi]\<close>.
\<close>

definition arctan2 :: "real \<Rightarrow> real \<Rightarrow> real" where
  "arctan2 x1 x2 =
     (if 0 < x2 then arctan (x1 / x2)
      else if x2 < 0 then (if 0 \<le> x1 then arctan (x1 / x2) + pi else arctan (x1 / x2) - pi)
      else if 0 < x1 then pi / 2
      else if x1 < 0 then - (pi / 2)
      else 0)"

text \<open>
  An elementwise operation of two 1-D arrays with numpy's broadcasting: equal lengths,
  or one of them of length one; anything else raises.
\<close>

definition elementwise :: "(real \<Rightarrow> real \<Rightarrow> real) \<Rightarrow> real list \<Rightarrow> real list \<Rightarrow> error + real list" where
  "elementwise f xs ys =
     (if length xs = length ys then Inr (map (\<lambda>(x, y). f x y) (zip xs ys))
      else if length xs = 1 then Inr (map (\<lambda>y. f (hd xs) y) ys)
      else if length ys = 1 then Inr (map (\<lambda>x. f x (hd ys)) xs)
      else Inl ValueError)"

definition pos_to_angle :: "real \<Rightarrow> real \<Rightarrow> real list \<Rightarrow> real list \<Rightarrow> error + real list" where
  "pos_to_angle centre_x centre_y pixel_x pixel_y =
     (let del_x = map (\<lambda>x. x - centre_x) pixel_x;
          del_y = map (\<lambda>y. y - centre_y) pixel_y
      in elementwise arctan2 del_x del_y)"

text \<open>
  \<open>np.interp(x, xp, fp)\<close> for ascending sample points \<open>xp\<close>: below the first sample the
  first value, above the last sample the last value, otherwise the straight line
  between the two samples around \<open>x\<close>. No samples, or values of another length, raise.
\<close>

fun interp_search :: "real \<Rightarrow> real list \<Rightarrow> real list \<Rightarrow> real" where
  "interp_search x (x0 # x1 # xp) (f0 # f1 # fp) =
     (if x < x1 then (f1 - f0) / (x1 - x0) * (x - x0) + f0
      else interp_search x (x1 # xp) (f1 # fp))"
| "interp_search x [x0] (f0 # fp) = f0"
| "interp_search x xp fp = 0"

definition interp_at :: "real list \<Rightarrow> real list \<Rightarrow> real \<Rightarrow> real" where
  "interp_at xp fp x =
     (if x < hd xp then hd fp
      else if last xp < x then last fp
      else interp_search x xp fp)"

definition interp :: "real list \<Rightarrow> real list \<Rightarrow> real list \<Rightarrow> error + real list" where
  "interp x xp fp =
     (if xp = [] then Inl ValueError
      else if length fp \<noteq> length xp then Inl ValueError
      else Inr (map (interp_at xp fp) x))"

text \<open>
  \<open>image_prediction\<close>. The division by \<open>width\<close> does not raise in numpy (a zero width
  gives infinities and NaN, which the reals do not have): the model is meant for a
  width that is not zero.
\<close>

definition image_prediction ::
  "(point list \<Rightarrow> point list \<Rightarrow> error + geometry) \<Rightarrow> MuonLineIntegrate \<Rightarrow>
   real \<Rightarrow> real \<Rightarrow> real \<Rightarrow> real \<Rightarrow> real \<Rightarrow> real \<Rightarrow> real list \<Rightarrow> real list \<Rightarrow> error + real list" where
  "image_prediction intersection self impact_x impact_y centre_x centre_y radius width
     pixel_x pixel_y =
     (case pos_to_angle centre_x centre_y pixel_x pixel_y of
        Inl e \<Rightarrow> Inl e
      | Inr ang0 \<Rightarrow>
          (let ang = map (\<lambda>a. a + pi) ang0 in
           case plot_pos intersection self impact_x impact_y radius of
             Inl e \<Rightarrow> Inl e
           | Inr (ang_prof, profile) \<Rightarrow>
               (case interp ang ang_prof profile of
                  Inl e \<Rightarrow> Inl e
                | Inr pred \<Rightarrow>
                    (case elementwise (\<lambda>a b. sqrt (a + b))
                            (map (\<lambda>x. (x - centre_x)\<^sup>2) pixel_x)
                            (map (\<lambda>y. (y - centre_y)\<^sup>2) pixel_y) of
                       Inl e \<Rightarrow> Inl e
                     | Inr radial_dist \<Rightarrow>
                         (let ring_dist = map (\<lambda>r. r - radius) radial_dist in
                          case elementwise (\<lambda>p g. p * g) pred
                                 (map (\<lambda>r. exp (- ((r / width)\<^sup>2))) ring_dist) of
                            Inl e \<Rightarrow> Inl e
                          | Inr weighted \<Rightarrow>
                              Inr (map (\<lambda>v. v / sqrt (pi * 2 * width\<^sup>2)) weighted))))))"

section \<open>Example instruments\<close>

text \<open>
  The mirror of the spec's end-to-end scenario, a square of side 2 around the origin,
  with no hole, pixel width 0.2 and five bins per pixel width; the same mirror with a
  square hole of side 1 in its middle.
\<close>

definition square_mirror :: "point list" where
  "square_mirror = [(- 1, - 1), (1, - 1), (1, 1), (- 1, 1)]"

definition scenario :: MuonLineIntegrate where
  "scenario = \<lparr>mirror = square_mirror, hole = [], pixel_width = 1 / 5, oversample_bins = 5\<rparr>"

definition scenario_point_hole :: MuonLineIntegrate where
  "scenario_point_hole =
     \<lparr>mirror = square_mirror, hole = [(0, 0), (0, 0), (0, 0)],
      pixel_width = 1 / 5, oversample_bins = 5\<rparr>"

definition with_hole :: MuonLineIntegrate where
  "with_hole =
     \<lparr>mirror = square_mirror,
      hole = [(- 1 / 2, - 1 / 2), (1 / 2, - 1 / 2), (1 / 2, 1 / 2), (- 1 / 2, 1 / 2)],
      pixel_width = 1 / 5, oversample_bins = 5\<rparr>"

text \<open>A coarse instrument: pixel width \<open>2 pi\<close> and three bins per pixel width.\<close>

definition coarse :: MuonLineIntegrate where
  "coarse = \<lparr>mirror = square_mirror, hole = [], pixel_width = 2 * pi, oversample_bins = 3\<rparr>"

text \<open>The scenario's instrument without oversampling: one bin per pixel width.\<close>

definition single_bin :: MuonLineIntegrate where
  "single_bin = \<lparr>mirror = square_mirror, hole = [], pixel_width = 1 / 5, oversample_bins = 1\<rparr>"

section \<open>Example camera\<close>

text \<open>
  One pixel at x = 1 m, y = 100 cm: the two coordinate arrays carry different length
  units, which the constructor and \<open>guess_camera_geometry\<close> accept.
\<close>

definition mixed_units :: "(string, string) CameraGeometry" where
  "mixed_units =
     \<lparr>cam_id = ''cam'', pix_id = [0],
      pix_x = \<lparr>q_value = [1], q_unit = ''m''\<rparr>,
      pix_y = \<lparr>q_value = [100], q_unit = ''cm''\<rparr>,
      pix_area = \<lparr>q_value = [1], q_unit = ''m2''\<rparr>,
      neighbors = [[]], pix_type = ''rectangular''\<rparr>"

section \<open>The smoothing as the specification words it\<close>

text \<open>
  A circular moving average of window \<open>k\<close>: value \<open>i\<close> is the mean of the \<open>k\<close> values
  of the sequence, taken cyclically, in the window that starts \<open>k div 2\<close> places before
  \<open>i\<close>.
\<close>

definition circular_moving_average :: "nat \<Rightarrow> real list \<Rightarrow> real list" where
  "circular_moving_average k xs =
     map (\<lambda>i. sum_list (map (\<lambda>j. xs ! nat ((int i + int j - int (k div 2)) mod int (length xs)))
                          [0..<k]) / real k)
         [0..<length xs]"

section \<open>What the convex intersection is meant to compute\<close>

text \<open>
  A point is on the inner side of an edge of a counter-clockwise polygon when it lies
  to the left of the edge or on its line; a parameter is in a range when it lies
  between its two ends. These say which points of a segment \<open>convex_intersection\<close> keeps.
\<close>

definition inside_edge :: "point \<times> point \<Rightarrow> point \<Rightarrow> bool" where
  "inside_edge e q = (0 \<le> cross (vec (fst e) (snd e)) (vec (fst e) q))"

definition in_range :: "(real \<times> real) option \<Rightarrow> real \<Rightarrow> bool" where
  "in_range r t = (case r of None \<Rightarrow> False | Some (lo, hi) \<Rightarrow> lo \<le> t \<and> t \<le> hi)"

section \<open>Properties of the camera geometry\<close>

subsection \<open>Rotation\<close>

lemma dot2_length:
  "dot2 m xs ys = Inr r \<Longrightarrow> length (fst r) = length xs \<and> length (snd r) = length ys"
  by (cases m) (auto simp: dot2_def split: if_splits prod.splits)

lemma dot2_nth:
  "dot2 ((a, b), (c, d)) xs ys = Inr r \<Longrightarrow> i < length xs \<Longrightarrow>
   fst r ! i = a * xs ! i + b * ys ! i \<and> snd r ! i = c * xs ! i + d * ys ! i"
  by (auto simp: dot2_def split: if_splits)

text \<open>
  When \<open>rotate\<close> returns, every field other than \<open>pix_x\<close> and \<open>pix_y\<close> is what it was,
  the two coordinate arrays keep their length, and the numbers of pixel \<open>i\<close> are the
  image of its old numbers under the transpose of the matrix the helper gave.
\<close>

lemma rotate_frame:
  assumes "rotate rotation_matrix_2d self angle = Inr self'"
  shows "cam_id self' = cam_id self \<and> pix_id self' = pix_id self \<and>
         pix_area self' = pix_area self \<and> neighbors self' = neighbors self \<and>
         pix_type self' = pix_type self \<and>
         length (q_value (pix_x self')) = length (q_value (pix_x self)) \<and>
         length (q_value (pix_y self')) = length (q_value (pix_y self)) \<and>
         (\<exists>a b c d. rotation_matrix_2d angle = Inr ((a, b), (c, d)) \<and>
            (\<forall>i < length (q_value (pix_x self)).
               q_value (pix_x self') ! i =
                 a * q_value (pix_x self) ! i + c * q_value (pix_y self) ! i \<and>
               q_value (pix_y self') ! i =
                 b * q_value (pix_x self) ! i + d * q_value (pix_y self) ! i))"
proof -
  from assms obtain rotmat where m: "rotation_matrix_2d angle = Inr rotmat"
    by (auto simp: rotate_def split: sum.splits)
  obtain a b c d where abcd: "rotmat = ((a, b), (c, d))"
    by (metis surj_pair)
  from assms m obtain rotated where
    r: "dot2 ((a, c), (b, d)) (q_value (pix_x self)) (q_value (pix_y self)) = Inr rotated"
    by (auto simp: rotate_def transpose2_def abcd split: sum.splits)
  have s: "self' = self\<lparr>pix_x := \<lparr>q_value = fst rotated, q_unit = q_unit (pix_x self)\<rparr>,
                         pix_y := \<lparr>q_value = snd rotated, q_unit = q_unit (pix_x self)\<rparr>\<rparr>"
    using assms m r by (simp add: rotate_def transpose2_def abcd Let_def)
  have len: "length (fst rotated) = length (q_value (pix_x self)) \<and>
             length (snd rotated) = length (q_value (pix_y self))"
    using r by (rule dot2_length)
  have nth: "fst rotated ! i = a * q_value (pix_x self) ! i + c * q_value (pix_y self) ! i \<and>
             snd rotated ! i = b * q_value (pix_x self) ! i + d * q_value (pix_y self) ! i"
    if "i < length (q_value (pix_x self))" for i
    using r that by (rule dot2_nth)
  show ?thesis
    using s len nth m abcd by simp
qed

lemma rotate_frame_example:
  "rotate rotation_matrix_2d_spec
     \<lparr>cam_id = ''cam'', pix_id = [0, 1],
      pix_x = \<lparr>q_value = [1, 0], q_unit = ''m''\<rparr>,
      pix_y = \<lparr>q_value = [0, 2], q_unit = ''m''\<rparr>,
      pix_area = \<lparr>q_value = [1, 1], q_unit = ''m2''\<rparr>,
      neighbors = [[1], [0]], pix_type = ''rectangular''\<rparr> pi =
   Inr \<lparr>cam_id = ''cam'', pix_id = [0, 1],
      pix_x = \<lparr>q_value = [- 1, 0], q_unit = ''m''\<rparr>,
      pix_y = \<lparr>q_value = [0, - 2], q_unit = ''m''\<rparr>,
      pix_area = \<lparr>q_value = [1, 1], q_unit = ''m2''\<rparr>,
      neighbors = [[1], [0]], pix_type = ''rectangular''\<rparr> \<and>
   neighbors \<lparr>cam_id = ''cam'', pix_id = [0, 1],
      pix_x = \<lparr>q_value = [- 1, 0], q_unit = ''m''\<rparr>,
      pix_y = \<lparr>q_value = [0, - 2], q_unit = ''m''\<rparr>,
      pix_area = \<lparr>q_value = [1, 1], q_unit = ''m2''\<rparr>,
      neighbors = [[1], [0]], pix_type = ''rectangular''\<rparr> = [[1], [0 :: nat]]"
proof -
  let ?g = "\<lparr>cam_id = ''cam'', pix_id = [0, 1],
      pix_x = \<lparr>q_value = [1, 0], q_unit = ''m''\<rparr>,
      pix_y = \<lparr>q_value = [0, 2], q_unit = ''m''\<rparr>,
      pix_area = \<lparr>q_value = [1, 1], q_unit = ''m2''\<rparr>,
      neighbors = [[1], [0]], pix_type = ''rectangular''\<rparr>"
  let ?g' = "\<lparr>cam_id = ''cam'', pix_id = [0, 1],
      pix_x = \<lparr>q_value = [- 1, 0], q_unit = ''m''\<rparr>,
      pix_y = \<lparr>q_value = [0, - 2], q_unit = ''m''\<rparr>,
      pix_area = \<lparr>q_value = [1, 1], q_unit = ''m2''\<rparr>,
      neighbors = [[1], [0]], pix_type = ''rectangular''\<rparr>"
  have h: "rotate rotation_matrix_2d_spec ?g pi = Inr ?g'"
    by (simp add: rotate_def rotation_matrix_2d_spec_def transpose2_def dot2_def)
  from rotate_frame [OF h] have "neighbors ?g' = neighbors ?g" by blast
  with h show ?thesis by simp
qed

text \<open>
  The units after the call: both arrays carry the unit \<open>pix_x\<close> had, so the unit of
  \<open>pix_y\<close> is kept only when the two arrays had one unit.
\<close>

lemma rotate_units:
  assumes "rotate rotation_matrix_2d self angle = Inr self'"
  shows "q_unit (pix_x self') = q_unit (pix_x self) \<and> q_unit (pix_y self') = q_unit (pix_x self)"
  using assms
  by (auto simp: rotate_def Let_def split: sum.splits)

text \<open>
  Claim C7 at a failing input. A camera with \<open>pix_x\<close> in metres and \<open>pix_y\<close> in
  centimetres is rotated by the angle 0. The rotation by 0 leaves every point where it
  is; the call returns the pixel at y = 100 cm with y = 100 m, since the rotated y
  numbers are given the unit of \<open>pix_x\<close>.
\<close>

theorem rotate_zero_mixed_units:
  "rotate rotation_matrix_2d_spec mixed_units 0 =
     Inr (mixed_units\<lparr>pix_y := \<lparr>q_value = [100], q_unit = ''m''\<rparr>\<rparr>) \<and>
   pix_y mixed_units = \<lparr>q_value = [100], q_unit = ''cm''\<rparr> \<and>
   rotate rotation_matrix_2d_spec mixed_units 0 \<noteq> Inr mixed_units"
  by (simp add: rotate_def rotation_matrix_2d_spec_def transpose2_def dot2_def mixed_units_def)

text \<open>
  With the rotation matrix of the spec, each pixel keeps its distance from the origin,
  and \<open>rotate\<close> returns whenever the two coordinate arrays have the same length.
\<close>

lemma rotate_spec_returns:
  "length (q_value (pix_x self)) = length (q_value (pix_y self)) \<Longrightarrow>
   \<exists>self'. rotate rotation_matrix_2d_spec self psi = Inr self'"
  by (simp add: rotate_def rotation_matrix_2d_spec_def transpose2_def dot2_def Let_def)

lemma rotation_keeps_norm:
  "(cos psi * x + sin psi * y)\<^sup>2 + (- sin psi * x + cos psi * y)\<^sup>2 = x\<^sup>2 + (y::real)\<^sup>2"
proof -
  have "(cos psi * x + sin psi * y)\<^sup>2 + (- sin psi * x + cos psi * y)\<^sup>2 =
        ((sin psi)\<^sup>2 + (cos psi)\<^sup>2) * (x\<^sup>2 + y\<^sup>2)"
    by algebra
  also have "\<dots> = x\<^sup>2 + y\<^sup>2"
    by (simp only: sin_cos_squared_add mult_1)
  finally show ?thesis .
qed

subsection \<open>Neighbours\<close>

lemma remove_self_error: "remove_self ps = Inl e \<Longrightarrow> e = ValueError"
  by (induction ps arbitrary: e rule: remove_self.induct)
     (auto simp: list_remove_def split: sum.splits if_splits)

lemma find_neighbor_pixels_error: "find_neighbor_pixels a b r = Inl e \<Longrightarrow> e = ValueError"
  by (auto simp: find_neighbor_pixels_def Let_def split: if_splits dest: remove_self_error)

lemma remove_self_ok:
  "(\<And>nn ii. (nn, ii) \<in> set ps \<Longrightarrow> ii \<in> set nn) \<Longrightarrow>
   remove_self ps = Inr (map (\<lambda>(nn, ii). remove1 ii nn) ps)"
  by (induction ps rule: remove_self.induct) (auto simp: list_remove_def)

lemma distance_self: "distance p p = 0"
  by (simp add: distance_def)

lemma distance_commute: "distance p q = distance q p"
  by (simp add: distance_def power2_commute)

lemma zip_map_upt:
  "zip (map f xs) [0..<length xs] = map (\<lambda>i. (f (xs ! i), i)) [0..<length xs]"
  by (rule nth_equalityI) auto

lemma find_neighbor_pixels_eq:
  assumes "length px = length py" and "0 \<le> rad"
  shows "find_neighbor_pixels px py rad =
         Inr (map (\<lambda>i. remove1 i (query_ball_point (zip px py) (zip px py ! i) rad))
                  [0..<length px])"
proof -
  let ?pts = "zip px py"
  have len: "length ?pts = length px" using assms by simp
  have z: "zip (map (\<lambda>p. query_ball_point ?pts p rad) ?pts) [0..<length px] =
           map (\<lambda>i. (query_ball_point ?pts (?pts ! i) rad, i)) [0..<length px]"
    using zip_map_upt [of "\<lambda>p. query_ball_point ?pts p rad" ?pts] len by simp
  have "remove_self (map (\<lambda>i. (query_ball_point ?pts (?pts ! i) rad, i)) [0..<length px]) =
        Inr (map (\<lambda>(nn, ii). remove1 ii nn)
               (map (\<lambda>i. (query_ball_point ?pts (?pts ! i) rad, i)) [0..<length px]))"
  proof (rule remove_self_ok)
    fix nn ii
    assume "(nn, ii) \<in> set (map (\<lambda>i. (query_ball_point ?pts (?pts ! i) rad, i)) [0..<length px])"
    then have "ii < length px" and "nn = query_ball_point ?pts (?pts ! ii) rad" by auto
    then show "ii \<in> set nn"
      using assms len by (simp add: query_ball_point_def distance_self)
  qed
  then show ?thesis
    using assms z by (simp add: find_neighbor_pixels_def Let_def comp_def)
qed

lemma mem_neighbors:
  assumes "i < length data"
  shows "j \<in> set (remove1 i (query_ball_point data (data ! i) rad)) \<longleftrightarrow>
         j < length data \<and> j \<noteq> i \<and> distance (data ! j) (data ! i) \<le> rad"
proof -
  have "distinct (query_ball_point data (data ! i) rad)"
    by (simp add: query_ball_point_def)
  then show ?thesis
    by (auto simp: set_remove1_eq query_ball_point_def)
qed

text \<open>
  Claim C8. For coordinate arrays of one length and a radius that is not negative,
  \<open>find_neighbor_pixels\<close> returns one list per point; \<open>j\<close> is in the list of \<open>i\<close> exactly
  when \<open>i\<close> is in the list of \<open>j\<close>, no list holds its own index, and the list of \<open>i\<close> holds
  exactly the other indices within distance \<open>rad\<close> (the bound included).
\<close>

theorem find_neighbor_pixels_symmetric:
  assumes "length px = length py" and "0 \<le> rad"
  shows "\<exists>nbrs. find_neighbor_pixels px py rad = Inr nbrs \<and> length nbrs = length px \<and>
           (\<forall>i < length px. \<forall>j < length px.
              i \<noteq> j \<longrightarrow> (j \<in> set (nbrs ! i) \<longleftrightarrow> i \<in> set (nbrs ! j))) \<and>
           (\<forall>i < length px. i \<notin> set (nbrs ! i)) \<and>
           (\<forall>i < length px. \<forall>j.
              j \<in> set (nbrs ! i) \<longleftrightarrow>
                j < length px \<and> j \<noteq> i \<and> distance (px ! j, py ! j) (px ! i, py ! i) \<le> rad)"
proof -
  let ?pts = "zip px py"
  let ?nbrs = "map (\<lambda>i. remove1 i (query_ball_point ?pts (?pts ! i) rad)) [0..<length px]"
  have len: "length ?pts = length px" using assms by simp
  have eq: "find_neighbor_pixels px py rad = Inr ?nbrs"
    using assms by (rule find_neighbor_pixels_eq)
  have mem: "j \<in> set (?nbrs ! i) \<longleftrightarrow>
             j < length px \<and> j \<noteq> i \<and> distance (?pts ! j) (?pts ! i) \<le> rad"
    if "i < length px" for i j
  proof -
    have "?nbrs ! i = remove1 i (query_ball_point ?pts (?pts ! i) rad)"
      using that by simp
    then show ?thesis
      using that mem_neighbors [of i ?pts j rad] unfolding len by presburger
  qed
  have sym: "j \<in> set (?nbrs ! i) \<longleftrightarrow> i \<in> set (?nbrs ! j)"
    if "i < length px" "j < length px" "i \<noteq> j" for i j
    using that mem [of i j] mem [of j i] distance_commute [of "?pts ! j" "?pts ! i"] by auto
  have irr: "i \<notin> set (?nbrs ! i)" if "i < length px" for i
    using that mem [of i i] by simp
  have mem': "j \<in> set (?nbrs ! i) \<longleftrightarrow>
             j < length px \<and> j \<noteq> i \<and> distance (px ! j, py ! j) (px ! i, py ! i) \<le> rad"
    if "i < length px" for i j
  proof (cases "j < length px")
    case True
    then have "?pts ! j = (px ! j, py ! j)" and "?pts ! i = (px ! i, py ! i)"
      using that assms by simp_all
    then show ?thesis using mem [OF that, of j] by simp
  next
    case False
    then show ?thesis using mem [OF that, of j] by simp
  qed
  show ?thesis
    using eq sym irr mem' by (intro exI [of _ ?nbrs]) (simp del: nth_map)
qed

text \<open>
  Three pixels in a row, one unit apart, with radius 1.01: the middle one neighbours
  both ends, the ends do not neighbour each other.
\<close>

lemma find_neighbor_pixels_row:
  "find_neighbor_pixels [0, 1, 2] [0, 0, 0] (101 / 100) = Inr [[1], [0, 2], [1]]"
  by (simp add: find_neighbor_pixels_def query_ball_point_def distance_def list_remove_def)

theorem find_neighbor_pixels_symmetric_witness:
  "length [0, 1, 2 :: real] = length [0, 0, 0 :: real] \<and> (0::real) \<le> 101 / 100 \<and>
   (\<exists>nbrs. find_neighbor_pixels [0, 1, 2] [0, 0, 0] (101 / 100) = Inr nbrs \<and>
      length nbrs = 3 \<and> (1 \<in> set (nbrs ! 0) \<longleftrightarrow> 0 \<in> set (nbrs ! 1)) \<and> 0 \<notin> set (nbrs ! 0))"
proof -
  have h1: "length [0, 1, 2 :: real] = length [0, 0, 0 :: real]" by simp
  have h2: "(0::real) \<le> 101 / 100" by simp
  from find_neighbor_pixels_symmetric [OF h1 h2] obtain nbrs where
    n: "find_neighbor_pixels [0, 1, 2] [0, 0, 0] (101 / 100) = Inr nbrs"
       "length nbrs = length [0, 1, 2 :: real]"
       "\<forall>i < length [0, 1, 2 :: real]. \<forall>j < length [0, 1, 2 :: real].
          i \<noteq> j \<longrightarrow> (j \<in> set (nbrs ! i) \<longleftrightarrow> i \<in> set (nbrs ! j))"
       "\<forall>i < length [0, 1, 2 :: real]. i \<notin> set (nbrs ! i)"
    by blast
  from n(3) have "1 \<in> set (nbrs ! 0) \<longleftrightarrow> 0 \<in> set (nbrs ! 1)" by simp
  moreover from n(4) have "0 \<notin> set (nbrs ! 0)" by simp
  ultimately show ?thesis using n(1,2) by auto
qed

text \<open>A negative radius finds nothing, and removing the pixel itself then raises.\<close>

lemma find_neighbor_pixels_negative_radius:
  "find_neighbor_pixels [0, 1] [0, 0] (- 1) = Inl ValueError"
  by (simp add: find_neighbor_pixels_def query_ball_point_def distance_def list_remove_def)

subsection \<open>Guessed pixel type\<close>

lemma guess_camera_type_cases:
  "snd (guess_camera_type n) = ''hexagonal'' \<or> snd (guess_camera_type n) = ''rectangular''"
  by (simp add: guess_camera_type_def npix_to_type_def)

text \<open>
  Claim C10. \<open>guess_camera_type\<close> answers hexagonal or rectangular for every pixel count,
  hexagonal for a count that is not in the table, and \<open>guess_camera_geometry\<close> never fails
  with the error of its last branch, whatever the positions, the units and the units
  library.
\<close>

theorem guess_camera_geometry_type_supported:
  "(snd (guess_camera_type n) = ''hexagonal'' \<or> snd (guess_camera_type n) = ''rectangular'') \<and>
   (n \<notin> {2048, 1141, 1855, 11328} \<longrightarrow> guess_camera_type n = (''unknown'', ''hexagonal'')) \<and>
   guess_camera_geometry is_length to_unit squared px py \<noteq> Inl KeyError"
proof -
  obtain cam ptype where g: "guess_camera_type (length (q_value px)) = (cam, ptype)"
    by (cases "guess_camera_type (length (q_value px))")
  have "ptype = ''hexagonal'' \<or> ptype = ''rectangular''"
    using guess_camera_type_cases [of "length (q_value px)"] g by simp
  then have s: "startswith ptype ''hex'' \<or> startswith ptype ''rect''"
    by (auto simp: startswith_def)
  have fn: "find_neighbor_pixels a b r \<noteq> Inl KeyError" for a b r
    using find_neighbor_pixels_error [of a b r KeyError] by auto
  have "guess_camera_geometry is_length to_unit squared px py \<noteq> Inl KeyError"
    using s g fn
    by (auto simp: guess_camera_geometry_def getitem_def Let_def split: sum.splits if_splits)
  moreover have "n \<notin> {2048, 1141, 1855, 11328} \<longrightarrow>
                 guess_camera_type n = (''unknown'', ''hexagonal'')"
    by (simp add: guess_camera_type_def npix_to_type_def)
  ultimately show ?thesis
    using guess_camera_type_cases [of n] by blast
qed

theorem guess_camera_geometry_type_supported_witness:
  "(7::nat) \<notin> {2048, 1141, 1855, 11328} \<and> guess_camera_type 7 = (''unknown'', ''hexagonal'') \<and>
   guess_camera_geometry (\<lambda>u. u = ''m'') (\<lambda>u v. 1) (\<lambda>u. u @ ''2'')
     \<lparr>q_value = [0, 1], q_unit = ''m''\<rparr> \<lparr>q_value = [0, 0], q_unit = ''m''\<rparr> \<noteq> Inl KeyError"
  using guess_camera_geometry_type_supported
    [of 7 "\<lambda>u. u = ''m''" "\<lambda>u v. 1" "\<lambda>u. u @ ''2''"
        "\<lparr>q_value = [0, 1], q_unit = ''m''\<rparr>" "\<lparr>q_value = [0, 0], q_unit = ''m''\<rparr>"]
  by simp

section \<open>Properties of the line integral\<close>

subsection \<open>The convex intersection keeps the points inside the polygon\<close>

text \<open>
  For a polygon listed counter-clockwise, \<open>convex_intersection\<close> is empty exactly when
  no point of the segment lies on the inner side of every edge; otherwise it is the
  point or the line of the parameters \<open>t\<close> in \<open>[0, 1]\<close> whose point does.
\<close>

lemma cross_along:
  "cross (vec a b) (vec a (along p0 d t)) = cross (vec a b) (vec a p0) + t * cross (vec a b) d"
  by (simp add: cross_def vec_def along_def algebra_simps)

lemma line_pos:
  fixes c0 c1 t :: real
  assumes "0 < c1"
  shows "0 \<le> c0 + t * c1 \<longleftrightarrow> - c0 / c1 \<le> t"
proof -
  have "(- c0 / c1 \<le> t) = (- c0 \<le> t * c1)"
    using assms by (rule pos_divide_le_eq)
  then show ?thesis by linarith
qed

lemma line_neg:
  fixes c0 c1 t :: real
  assumes "c1 < 0"
  shows "0 \<le> c0 + t * c1 \<longleftrightarrow> t \<le> - c0 / c1"
proof -
  have "(t \<le> - c0 / c1) = (- c0 \<le> t * c1)"
    using assms by (rule neg_le_divide_eq)
  then show ?thesis by linarith
qed

lemma clip_edge_in_range:
  "in_range (clip_edge p0 d e r) t \<longleftrightarrow> in_range r t \<and> inside_edge e (along p0 d t)"
proof (cases r)
  case None
  then show ?thesis by (cases e) (simp add: in_range_def)
next
  case (Some lh)
  obtain lo hi where lh: "lh = (lo, hi)" by (cases lh)
  obtain a b where e: "e = (a, b)" by (cases e)
  let ?c0 = "cross (vec a b) (vec a p0)"
  let ?c1 = "cross (vec a b) d"
  have ins: "inside_edge e (along p0 d t) \<longleftrightarrow> 0 \<le> ?c0 + t * ?c1"
    by (simp add: inside_edge_def e cross_along)
  consider "?c1 = 0" | "0 < ?c1" | "?c1 < 0" by linarith
  then show ?thesis
  proof cases
    case 1
    then show ?thesis
      using ins by (auto simp: Some lh e in_range_def Let_def)
  next
    case 2
    then have "0 \<le> ?c0 + t * ?c1 \<longleftrightarrow> - ?c0 / ?c1 \<le> t"
      by (rule line_pos)
    then show ?thesis
      using 2 ins by (auto simp: Some lh e in_range_def Let_def)
  next
    case 3
    then have "0 \<le> ?c0 + t * ?c1 \<longleftrightarrow> t \<le> - ?c0 / ?c1"
      by (rule line_neg)
    then show ?thesis
      using 3 ins by (auto simp: Some lh e in_range_def Let_def)
  qed
qed

lemma fold_clip_edge_in_range:
  "in_range (fold (clip_edge p0 d) es r) t \<longleftrightarrow>
   in_range r t \<and> (\<forall>e \<in> set es. inside_edge e (along p0 d t))"
  by (induction es arbitrary: r) (auto simp: clip_edge_in_range)

lemma clip_edge_None: "clip_edge p0 d e None = None"
  by (cases e) simp

lemma fold_clip_edge_None: "fold (clip_edge p0 d) es None = None"
  by (induction es) (simp_all add: clip_edge_None)

lemma clip_edge_ordered:
  "clip_edge p0 d e (Some (lo, hi)) = Some (lo', hi') \<Longrightarrow> lo \<le> hi \<Longrightarrow> lo' \<le> hi'"
  by (cases e) (auto simp: Let_def split: if_splits)

lemma fold_clip_edge_ordered:
  "fold (clip_edge p0 d) es (Some (lo, hi)) = Some (lo', hi') \<Longrightarrow> lo \<le> hi \<Longrightarrow> lo' \<le> hi'"
proof (induction es arbitrary: lo hi)
  case Nil
  then show ?case by simp
next
  case (Cons e es)
  show ?case
  proof (cases "clip_edge p0 d e (Some (lo, hi))")
    case None
    then show ?thesis using Cons.prems fold_clip_edge_None [of p0 d es] by simp
  next
    case (Some lh)
    obtain l h where lh: "lh = (l, h)" by (cases lh)
    have "l \<le> h" using clip_edge_ordered Some lh Cons.prems(2) by blast
    then show ?thesis using Cons.IH [of l h] Cons.prems(1) Some lh by simp
  qed
qed

lemma convex_intersection_points:
  assumes "0 < signed_area2 poly"
  shows "(convex_intersection poly [p0, p1] = Inr (GeometryCollection []) \<longleftrightarrow>
            \<not> (\<exists>t. 0 \<le> t \<and> t \<le> 1 \<and>
                  (\<forall>e \<in> set (edges poly). inside_edge e (along p0 (vec p0 p1) t)))) \<and>
         (\<forall>lo hi. fold (clip_edge p0 (vec p0 p1)) (edges poly) (Some (0, 1)) = Some (lo, hi) \<longrightarrow>
            lo \<le> hi \<and>
            convex_intersection poly [p0, p1] =
              (if lo = hi then Inr (Point (along p0 (vec p0 p1) lo))
               else Inr (LineString [along p0 (vec p0 p1) lo, along p0 (vec p0 p1) hi])) \<and>
            (\<forall>t. lo \<le> t \<and> t \<le> hi \<longleftrightarrow>
                 0 \<le> t \<and> t \<le> 1 \<and>
                 (\<forall>e \<in> set (edges poly). inside_edge e (along p0 (vec p0 p1) t))))"
proof -
  let ?d = "vec p0 p1"
  let ?r = "fold (clip_edge p0 ?d) (edges poly) (Some (0, 1))"
  have ci: "convex_intersection poly [p0, p1] =
        (case ?r of None \<Rightarrow> Inr (GeometryCollection [])
         | Some (lo, hi) \<Rightarrow>
             if lo = hi then Inr (Point (along p0 ?d lo))
             else Inr (LineString [along p0 ?d lo, along p0 ?d hi]))"
    using assms by (simp add: convex_intersection_def Let_def)
  have rng: "in_range ?r t \<longleftrightarrow>
        0 \<le> t \<and> t \<le> 1 \<and> (\<forall>e \<in> set (edges poly). inside_edge e (along p0 ?d t))" for t
    using fold_clip_edge_in_range [of p0 ?d "edges poly" "Some (0, 1)" t]
    by (simp add: in_range_def [of "Some (0, 1)"])
  show ?thesis
  proof (cases ?r)
    case None
    then have "\<not> in_range ?r t" for t by (simp add: in_range_def)
    then show ?thesis using None ci rng by auto
  next
    case (Some lh)
    obtain lo hi where lh: "lh = (lo, hi)" by (cases lh)
    have ord: "lo \<le> hi"
      using fold_clip_edge_ordered [of p0 ?d "edges poly" 0 1 lo hi] Some lh by simp
    have mem: "lo \<le> t \<and> t \<le> hi \<longleftrightarrow>
        0 \<le> t \<and> t \<le> 1 \<and> (\<forall>e \<in> set (edges poly). inside_edge e (along p0 ?d t))" for t
      using rng [of t] Some lh by (simp add: in_range_def)
    have "in_range ?r lo" using Some lh ord by (simp add: in_range_def)
    then have ex: "\<exists>t. 0 \<le> t \<and> t \<le> 1 \<and> (\<forall>e \<in> set (edges poly). inside_edge e (along p0 ?d t))"
      using rng by blast
    have ne: "convex_intersection poly [p0, p1] \<noteq> Inr (GeometryCollection [])"
      using ci Some lh by simp
    show ?thesis
      using ne ex ord mem ci Some lh by simp
  qed
qed

subsection \<open>Evaluating the convex intersection\<close>

lemma edges_square_mirror:
  "edges square_mirror =
     [((- 1, - 1), (1, - 1)), ((1, - 1), (1, 1)), ((1, 1), (- 1, 1)), ((- 1, 1), (- 1, - 1))]"
  by (simp add: edges_def square_mirror_def)

lemma signed_area2_square_mirror: "signed_area2 square_mirror = 8"
  by (simp add: signed_area2_def edges_square_mirror cross_def)

lemmas convex_eval =
  convex_intersection_def signed_area2_def edges_def cross_def vec_def along_def Let_def

lemma square_centre_up:
  "convex_intersection square_mirror [(0, 0), (0, 100)] = Inr (LineString [(0, 0), (0, 1)])"
  by (simp add: convex_eval square_mirror_def)

lemma square_edge_up:
  "convex_intersection square_mirror [(0, 1), (0, 101)] = Inr (Point (0, 1))"
  by (simp add: convex_eval square_mirror_def)

lemma square_miss:
  "convex_intersection square_mirror [(3, 0), (3, 100)] = Inr (GeometryCollection [])"
  by (simp add: convex_eval square_mirror_def)

lemma no_polygon: "convex_intersection [] [p0, p1] = Inr (GeometryCollection [])"
  by (simp add: convex_eval)

lemma point_polygon:
  "convex_intersection [(0, 0), (0, 0), (0, 0)] [p0, p1] = Inr (GeometryCollection [])"
  by (simp add: convex_eval)

lemma hole_centre_up:
  "convex_intersection (hole with_hole) [(0, 0), (0, 100)] = Inr (LineString [(0, 0), (0, 1 / 2)])"
  by (simp add: convex_eval with_hole_def)

lemmas ip_eval = intersect_polygon_def dir_to_line_def coords_def new_LineString_def distance_def

subsection \<open>The end-to-end scenario\<close>

text \<open>
  Claim C6, as the code has it. In the scenario of the spec (the square mirror, no hole
  or a hole shrunk to the point at the centre, pixel width 0.2, five bins), the call
  \<open>intersect_polygon(0, 0, 0)\<close> returns 1: the segment starts at the impact point, so
  what lies in the mirror is the part from the centre up to the top edge.
\<close>

theorem scenario_centre_up:
  "intersect_polygon convex_intersection scenario 0 0 0 = Inr 1 \<and>
   intersect_polygon convex_intersection scenario_point_hole 0 0 0 = Inr 1"
  by (simp add: ip_eval scenario_def scenario_point_hole_def square_centre_up no_polygon point_polygon)

text \<open>Claim C6, as stated, fails: the call does not return the full chord 2.\<close>

theorem scenario_centre_up_not_two:
  "intersect_polygon convex_intersection scenario 0 0 0 \<noteq> Inr 2"
  by (simp add: ip_eval scenario_def square_centre_up no_polygon)

subsection \<open>A segment that touches the mirror in one point\<close>

text \<open>
  Claim C2 at a failing input. From the impact point \<open>(0, 1)\<close> on the top edge of the
  square mirror, the segment of angle 0 meets the mirror in that point alone. Its single
  coordinate goes to the \<open>LineString\<close> constructor outside the \<open>try\<close>, and the call
  raises instead of returning 0.
\<close>

theorem single_point_raises:
  "intersect_polygon convex_intersection scenario 0 1 0 = Inl ValueError"
  by (simp add: ip_eval scenario_def square_edge_up no_polygon)

text \<open>
  The same for any library and any polygons: a one-point intersection with the mirror
  raises, a one-point intersection with the hole counts 0.
\<close>

lemma mirror_point_raises:
  "intersection (mirror self) [(x, y), dir_to_line x y a 100] = Inr (Point p) \<Longrightarrow>
   intersect_polygon intersection self x y a = Inl ValueError"
  by (simp add: intersect_polygon_def coords_def new_LineString_def)

lemma hole_point_is_zero:
  "intersection (mirror self) [(x, y), dir_to_line x y a 100] = Inr (LineString cs) \<Longrightarrow>
   length cs \<noteq> 1 \<Longrightarrow>
   intersection (hole self) [(x, y), dir_to_line x y a 100] = Inr (Point p) \<Longrightarrow>
   intersect_polygon intersection self x y a = Inr (path_length cs)"
  by (simp add: intersect_polygon_def coords_def new_LineString_def)

subsection \<open>The value of the line integral\<close>

lemma hole_term:
  "coords gh = Inr hs \<Longrightarrow>
   (case new_LineString hs of Inl e \<Rightarrow> 0 | Inr hole_intersect \<Rightarrow> glength hole_intersect) = glength gh"
  by (cases gh) (auto simp: coords_def new_LineString_def length_Suc_conv)

text \<open>
  Where the hole lies inside the mirror, a segment that misses the mirror misses the
  hole. Then, for a segment whose intersection with the mirror is empty or a line, and
  whose intersection with the hole is empty, a point or a line, the call returns the
  arc length of the first minus the arc length of the second, whatever the library.
\<close>

lemma intersect_polygon_in_domain:
  assumes m: "intersection (mirror self) [(x, y), (x + 100 * sin a, y + 100 * cos a)] = Inr gm"
    and h: "intersection (hole self) [(x, y), (x + 100 * sin a, y + 100 * cos a)] = Inr gh"
    and gm: "gm = GeometryCollection [] \<or> (\<exists>cs. gm = LineString cs \<and> length cs \<noteq> 1)"
    and gh: "gh = GeometryCollection [] \<or> (\<exists>hs. coords gh = Inr hs)"
    and inside: "gm = GeometryCollection [] \<Longrightarrow> gh = GeometryCollection []"
  shows "intersect_polygon intersection self x y a = Inr (glength gm - glength gh)"
proof (cases "gm = GeometryCollection []")
  case True
  then show ?thesis
    using m inside by (simp add: intersect_polygon_def dir_to_line_def coords_def)
next
  case False
  then obtain cs where cs: "gm = LineString cs" "length cs \<noteq> 1"
    using gm by blast
  show ?thesis
  proof (cases "gh = GeometryCollection []")
    case True
    then show ?thesis
      using m h cs by (simp add: intersect_polygon_def dir_to_line_def coords_def new_LineString_def)
  next
    case False
    then obtain hs where hs: "coords gh = Inr hs"
      using gh by blast
    show ?thesis
      using m h cs hs hole_term [OF hs]
      by (simp add: intersect_polygon_def dir_to_line_def coords_def [of "LineString cs"]
          new_LineString_def [of cs])
  qed
qed

text \<open>
  With the convex intersection this covers every segment but the one that touches the
  mirror in a single point: for polygons with the hole inside the mirror, all impact
  points and all angles, the call returns the difference of the two arc lengths.
\<close>

lemma convex_intersection_shape:
  assumes "convex_intersection poly [p0, p1] = Inr g"
  shows "g = GeometryCollection [] \<or> (\<exists>p. g = Point p) \<or> (\<exists>q r. g = LineString [q, r])"
proof -
  let ?r = "fold (clip_edge p0 (vec p0 p1))
              (edges (if signed_area2 poly < 0 then rev poly else poly)) (Some (0, 1))"
  show ?thesis
  proof (cases "signed_area2 poly = 0")
    case True
    then show ?thesis using assms by (simp add: convex_intersection_def)
  next
    case False
    show ?thesis
    proof (cases ?r)
      case None
      then show ?thesis using assms False by (simp add: convex_intersection_def Let_def)
    next
      case (Some lh)
      obtain lo hi where "lh = (lo, hi)" by (cases lh)
      then show ?thesis
        using assms False Some
        by (cases "lo = hi") (auto simp: convex_intersection_def Let_def along_def)
    qed
  qed
qed

lemma intersect_polygon_convex_in_domain:
  assumes m: "convex_intersection (mirror self) [(x, y), (x + 100 * sin a, y + 100 * cos a)] = Inr gm"
    and h: "convex_intersection (hole self) [(x, y), (x + 100 * sin a, y + 100 * cos a)] = Inr gh"
    and inside: "gm = GeometryCollection [] \<Longrightarrow> gh = GeometryCollection []"
    and no_touch: "\<And>p. gm \<noteq> Point p"
  shows "intersect_polygon convex_intersection self x y a = Inr (glength gm - glength gh)"
proof -
  have 1: "gm = GeometryCollection [] \<or> (\<exists>cs. gm = LineString cs \<and> length cs \<noteq> 1)"
    using convex_intersection_shape [OF m] no_touch by auto
  have 2: "gh = GeometryCollection [] \<or> (\<exists>hs. coords gh = Inr hs)"
    using convex_intersection_shape [OF h] by (auto simp: coords_def)
  show ?thesis
    using intersect_polygon_in_domain [of convex_intersection self x y a gm gh] m h 1 2 inside
    by blast
qed

lemma with_hole_centre_up: "intersect_polygon convex_intersection with_hole 0 0 0 = Inr (1 / 2)"
proof -
  have m: "convex_intersection (mirror with_hole) [(0, 0), (0 + 100 * sin 0, 0 + 100 * cos 0)] =
     Inr (LineString [(0, 0), (0, 1)])"
    by (simp add: with_hole_def square_centre_up)
  have h: "convex_intersection (hole with_hole) [(0, 0), (0 + 100 * sin 0, 0 + 100 * cos 0)] =
     Inr (LineString [(0, 0), (0, 1 / 2)])"
    by (simp add: hole_centre_up)
  have "intersect_polygon convex_intersection with_hole 0 0 0 =
        Inr (glength (LineString [(0, 0), (0, 1)]) - glength (LineString [(0, 0), (0, 1 / 2)]))"
    by (rule intersect_polygon_in_domain [of convex_intersection with_hole 0 0 0, OF m h])
       (simp_all add: coords_def)
  then show ?thesis by (simp add: distance_def)
qed

lemma scenario_miss: "intersect_polygon convex_intersection scenario 3 0 0 = Inr 0"
  by (simp add: ip_eval scenario_def square_miss)

lemma hole_edge_up:
  "convex_intersection (hole with_hole) [(0, 1), (0, 101)] = Inr (GeometryCollection [])"
  by (simp add: convex_eval with_hole_def)

text \<open>
  Claim C1 at a failing input. With the square hole in the middle of the square mirror,
  the segment of angle 0 from the impact point \<open>(0, 1)\<close> meets the mirror in that point
  alone and misses the hole. Both arc lengths are 0 and so is their difference; the
  call does not return it but raises, for the reason seen above: the single coordinate
  of the mirror intersection goes to the \<open>LineString\<close> constructor outside the \<open>try\<close>.
\<close>

theorem touching_segment_no_difference:
  "convex_intersection (mirror with_hole) [(0, 1), (0 + 100 * sin 0, 1 + 100 * cos 0)] =
     Inr (Point (0, 1)) \<and>
   convex_intersection (hole with_hole) [(0, 1), (0 + 100 * sin 0, 1 + 100 * cos 0)] =
     Inr (GeometryCollection []) \<and>
   glength (Point (0, 1)) - glength (GeometryCollection []) = 0 \<and>
   intersect_polygon convex_intersection with_hole 0 1 0 = Inl ValueError"
proof -
  have m: "convex_intersection (mirror with_hole) [(0, 1), (0, 101)] = Inr (Point (0, 1))"
    by (simp add: with_hole_def square_edge_up)
  have "intersect_polygon convex_intersection with_hole 0 1 0 = Inl ValueError"
    by (simp add: ip_eval m)
  then show ?thesis
    using m by (simp add: hole_edge_up)
qed

section \<open>Properties of the angular profile\<close>

subsection \<open>The parts of \<open>plot_pos\<close>\<close>


lemma linspace_length: "linspace start stop num = Inr ang \<Longrightarrow> length ang = nat num"
  by (auto simp: linspace_def split: if_splits)

lemma linspace_returns: "0 \<le> num \<Longrightarrow> \<exists>ang. linspace start stop num = Inr ang"
  by (simp add: linspace_def)

lemma linspace_nth:
  assumes "linspace start stop num = Inr ang" and "2 \<le> num" and "i < nat num"
  shows "ang ! i = start + real i * ((stop - start) / real (nat num - 1))"
  using assms by (auto simp: linspace_def split: if_splits)

lemma linspace_first:
  assumes "linspace start stop num = Inr ang" and "2 \<le> num"
  shows "ang ! 0 = start"
  using linspace_nth [OF assms, of 0] assms(2) by simp

lemma linspace_last:
  assumes "linspace start stop num = Inr ang" and "2 \<le> num"
  shows "ang ! (nat num - 1) = stop"
proof -
  have "0 < real (nat num - 1)" using assms(2) by simp
  then show ?thesis
    using linspace_nth [OF assms, of "nat num - 1"] assms(2) by simp
qed


lemma fill_lengths_Inr:
  "fill_lengths f ang = Inr l \<Longrightarrow>
   length l = length ang \<and> (\<forall>i < length ang. f (ang ! i) = Inr (l ! i))"
proof (induction ang arbitrary: l)
  case Nil
  then show ?case by simp
next
  case (Cons a ang)
  then obtain v l' where v: "f a = Inr v" and l': "fill_lengths f ang = Inr l'" and l: "l = v # l'"
    by (auto split: sum.splits)
  from Cons.IH [OF l'] have ih: "length l' = length ang" "\<And>i. i < length ang \<Longrightarrow> f (ang ! i) = Inr (l' ! i)"
    by auto
  show ?case
  proof (intro conjI allI impI)
    show "length l = length (a # ang)" using l ih(1) by simp
  next
    fix i assume "i < length (a # ang)"
    then show "f ((a # ang) ! i) = Inr (l ! i)"
      using v l ih(2) by (cases i) auto
  qed
qed

lemma fill_lengths_returns:
  "(\<And>a. a \<in> set ang \<Longrightarrow> \<exists>v. f a = Inr v) \<Longrightarrow> \<exists>l. fill_lengths f ang = Inr l"
proof (induction ang)
  case Nil
  then show ?case by simp
next
  case (Cons a ang)
  then obtain v where "f a = Inr v" by fastforce
  moreover from Cons obtain l where "fill_lengths f ang = Inr l" by fastforce
  ultimately show ?case by simp
qed

lemma fill_lengths_Inl:
  "fill_lengths f ang = Inl e \<Longrightarrow> \<exists>a \<in> set ang. f a = Inl e"
  by (induction ang) (auto split: sum.splits)

lemma correlate1d_wrap_ones:
  assumes "0 < k"
  shows "correlate1d_wrap l (replicate k 1) =
         Inr (map (\<lambda>i. sum_list (map (\<lambda>j. l ! nat ((int i + int j - int (k div 2)) mod int (length l)))
                                  [0..<k]))
                  [0..<length l])"
proof -
  have ne: "replicate k (1::real) \<noteq> []" using assms by auto
  have "sum_list (map (\<lambda>j. replicate k (1::real) ! j * g j) [0..<k]) = sum_list (map g [0..<k])" for g
    by (rule arg_cong [where f = sum_list]) (rule map_cong, auto)
  then show ?thesis
    using ne by (simp add: correlate1d_wrap_def Let_def)
qed

lemma plot_pos_Inr:
  assumes "plot_pos intersection self x y radius = Inr (ang, l)"
  shows "pixel_width self \<noteq> 0 \<and> 0 \<le> oversample_bins self \<and>
         linspace 0 (2 * pi) (py_int ((2 * pi * radius) / pixel_width self) * oversample_bins self) = Inr ang \<and>
         (\<exists>raw. fill_lengths (intersect_polygon intersection self x y) ang = Inr raw \<and>
            (\<exists>l'. correlate1d_wrap raw (replicate (nat (oversample_bins self)) 1) = Inr l' \<and>
               l = map (\<lambda>v. v / real_of_int (oversample_bins self)) l'))"
  using assms
  by (auto simp: plot_pos_def Let_def ones_def split: if_splits sum.splits)

lemma plot_pos_returns:
  assumes "pixel_width self \<noteq> 0" and "0 < oversample_bins self"
    and "0 \<le> py_int ((2 * pi * radius) / pixel_width self)"
    and "\<And>a. \<exists>v. intersect_polygon intersection self impact_x impact_y a = Inr v"
  shows "\<exists>ang l. plot_pos intersection self impact_x impact_y radius = Inr (ang, l)"
proof -
  let ?bins = "py_int ((2 * pi * radius) / pixel_width self) * oversample_bins self"
  have "0 \<le> ?bins" using assms(2,3) by simp
  then obtain ang where ang: "linspace 0 (2 * pi) ?bins = Inr ang"
    using linspace_returns by blast
  obtain raw where raw: "fill_lengths (intersect_polygon intersection self impact_x impact_y) ang = Inr raw"
    using fill_lengths_returns [of ang "intersect_polygon intersection self impact_x impact_y"] assms(4)
    by blast
  have w: "replicate (nat (oversample_bins self)) (1::real) \<noteq> []"
    using assms(2) by simp
  show ?thesis
    using assms(1,2) ang raw w
    by (simp add: plot_pos_def Let_def ones_def correlate1d_wrap_def)
qed

lemma plot_pos_profile_ends:
  assumes "plot_pos intersection self impact_x impact_y radius = Inr (ang, l)"
    and "2 \<le> length ang"
  shows "hd ang = 0 \<and> last ang = 2 * pi"
proof -
  let ?bins = "py_int ((2 * pi * radius) / pixel_width self) * oversample_bins self"
  from plot_pos_Inr [OF assms(1)] have ang: "linspace 0 (2 * pi) ?bins = Inr ang"
    by blast
  have len: "length ang = nat ?bins" using ang by (rule linspace_length)
  have b2: "2 \<le> ?bins" using assms(2) len by linarith
  have ne: "ang \<noteq> []" using assms(2) by auto
  have "ang ! 0 = 0" using linspace_first [OF ang b2] .
  moreover have "ang ! (length ang - 1) = 2 * pi"
    using linspace_last [OF ang b2] len by simp
  ultimately show ?thesis
    using ne by (simp add: hd_conv_nth last_conv_nth)
qed

subsection \<open>The circular moving average\<close>

text \<open>
  The moving average keeps the length of the sequence and the sum of its values, and it
  leaves a constant sequence as it is.
\<close>

lemma nat_mod_less: "0 < n \<Longrightarrow> nat (z mod int n) < n"
proof -
  assume "0 < n"
  then have "0 \<le> z mod int n" and "z mod int n < int n" by simp_all
  then show ?thesis by linarith
qed

lemma shift_mod_inj:
  assumes "i < n" "i' < n"
    and "nat ((int i + c) mod int n) = nat ((int i' + c) mod int n)"
  shows "i = i'"
proof -
  have n: "0 < int n" using assms(1) by simp
  have "0 \<le> (int i + c) mod int n" and "0 \<le> (int i' + c) mod int n"
    using n by simp_all
  then have "(int i + c) mod int n = (int i' + c) mod int n"
    using assms(3) by (simp add: eq_nat_nat_iff)
  then have "(int i + c - c) mod int n = (int i' + c - c) mod int n"
    by (rule mod_diff_cong) simp
  then have "int i mod int n = int i' mod int n" by simp
  then show ?thesis using assms(1,2) by simp
qed

lemma shift_mod_bij:
  "bij_betw (\<lambda>i. nat ((int i + c) mod int n)) {..<n} {..<n}"
proof (cases "n = 0")
  case True
  then show ?thesis by (simp add: bij_betw_def)
next
  case False
  let ?h = "\<lambda>i. nat ((int i + c) mod int n)"
  have inj: "inj_on ?h {..<n}"
    by (rule inj_onI) (use shift_mod_inj in auto)
  have sub: "?h ` {..<n} \<subseteq> {..<n}"
  proof
    fix m assume "m \<in> ?h ` {..<n}"
    then obtain i where "m = ?h i" by auto
    moreover have "(int i + c) mod int n < int n" using False by simp
    moreover have "0 \<le> (int i + c) mod int n" using False by simp
    ultimately show "m \<in> {..<n}" by auto
  qed
  have "?h ` {..<n} = {..<n}"
    using inj sub by (simp add: endo_inj_surj)
  then show ?thesis using inj by (simp add: bij_betw_def)
qed

lemma sum_shift_mod:
  "(\<Sum>i<n. f (nat ((int i + c) mod int n))) = (\<Sum>m<n. (f m :: real))"
  by (rule sum.reindex_bij_betw [OF shift_mod_bij])

lemma sum_list_upt: "sum_list (map f [0..<n]) = (\<Sum>i<n. (f i :: real))"
  by (simp add: interv_sum_list_conv_sum_set_nat atLeast0LessThan)

lemma circular_moving_average_length: "length (circular_moving_average k xs) = length xs"
  by (simp add: circular_moving_average_def)

lemma circular_moving_average_sum:
  assumes "0 < k"
  shows "sum_list (circular_moving_average k xs) = sum_list xs"
proof -
  let ?n = "length xs"
  let ?g = "\<lambda>i j. xs ! nat ((int i + int j - int (k div 2)) mod int ?n)"
  have "sum_list (circular_moving_average k xs) = (\<Sum>i<?n. (\<Sum>j<k. ?g i j) / real k)"
    by (simp add: circular_moving_average_def sum_list_upt)
  also have "\<dots> = (\<Sum>i<?n. \<Sum>j<k. ?g i j) / real k"
    by (simp add: sum_divide_distrib)
  also have "(\<Sum>i<?n. \<Sum>j<k. ?g i j) = (\<Sum>j<k. \<Sum>i<?n. ?g i j)"
    by (rule sum.swap)
  also have "\<dots> = (\<Sum>j<k. \<Sum>m<?n. xs ! m)"
  proof (rule sum.cong [OF refl])
    fix j
    have "(\<Sum>i<?n. xs ! nat ((int i + (int j - int (k div 2))) mod int ?n)) = (\<Sum>m<?n. xs ! m)"
      by (rule sum_shift_mod)
    then show "(\<Sum>i<?n. ?g i j) = (\<Sum>m<?n. xs ! m)"
      by (simp add: algebra_simps)
  qed
  also have "\<dots> = real k * sum_list xs"
    by (simp add: sum_list_sum_nth atLeast0LessThan)
  finally show ?thesis using assms by simp
qed

lemma circular_moving_average_constant:
  assumes "0 < k" and "\<And>i. i < length xs \<Longrightarrow> xs ! i = c"
  shows "i < length xs \<Longrightarrow> circular_moving_average k xs ! i = c"
proof -
  assume i: "i < length xs"
  have "xs ! nat ((int i + int j - int (k div 2)) mod int (length xs)) = c" for j
    by (rule assms(2), rule nat_mod_less) (use i in auto)
  then have "sum_list (map (\<lambda>j. xs ! nat ((int i + int j - int (k div 2)) mod int (length xs))) [0..<k]) = real k * c"
    by (simp add: sum_list_upt)
  then show ?thesis
    using i assms(1) by (simp add: circular_moving_average_def)
qed

subsection \<open>Profiles of the example instruments\<close>

lemma square_half_up:
  "convex_intersection square_mirror [(0, 1 / 2), (0, 201 / 2)] = Inr (LineString [(0, 1 / 2), (0, 1)])"
  by (simp add: convex_eval square_mirror_def)

lemma square_half_down:
  "convex_intersection square_mirror [(0, 1 / 2), (0, - (199 / 2))] = Inr (LineString [(0, 1 / 2), (0, - 1)])"
  by (simp add: convex_eval square_mirror_def)

lemma coarse_up: "intersect_polygon convex_intersection coarse 0 (1 / 2) 0 = Inr (1 / 2)"
  by (simp add: ip_eval coarse_def square_half_up no_polygon)

lemma coarse_down: "intersect_polygon convex_intersection coarse 0 (1 / 2) pi = Inr (3 / 2)"
  by (simp add: ip_eval coarse_def square_half_down no_polygon)

lemma coarse_round: "intersect_polygon convex_intersection coarse 0 (1 / 2) (2 * pi) = Inr (1 / 2)"
  by (simp add: ip_eval coarse_def square_half_up no_polygon)

lemma coarse_bins: "py_int (2 * pi / pixel_width coarse) = 1"
  by (simp add: py_int_def coarse_def)

lemma linspace_three: "linspace 0 (2 * pi) 3 = Inr [0, pi, 2 * pi]"
  by (simp add: linspace_def upt_rec)

lemma coarse_profile:
  "plot_pos convex_intersection coarse 0 (1 / 2) 1 = Inr ([0, pi, 2 * pi], [5 / 6, 5 / 6, 5 / 6])"
proof -
  have k: "oversample_bins coarse = 3" and w: "pixel_width coarse \<noteq> 0"
    by (simp_all add: coarse_def)
  have c: "correlate1d_wrap [1 / 2, 3 / 2, 1 / 2] (replicate 3 1) = Inr [5 / 2, 5 / 2, 5 / 2]"
    by (simp add: correlate1d_wrap_def Let_def upt_rec numeral_3_eq_3)
  show ?thesis
    unfolding plot_pos_def
    using w by (simp add: coarse_bins linspace_three coarse_up coarse_down coarse_round k ones_def c)
qed

lemma floor_pi_tenth: "\<lfloor>pi / 10\<rfloor> = 0"
proof (rule floor_unique)
  show "of_int 0 \<le> pi / 10" by simp
  show "pi / 10 < of_int 0 + 1" using pi_less_4 by simp
qed

lemma floor_pi_half: "\<lfloor>pi / 2\<rfloor> = 1"
proof (rule floor_unique)
  show "of_int 1 \<le> pi / 2" using pi_ge_two by simp
  show "pi / 2 < of_int 1 + 1" using pi_less_4 by simp
qed

lemma scenario_small_ring:
  "plot_pos convex_intersection scenario 0 0 (1 / 100) = Inr ([], [])"
proof -
  have "py_int (2 * pi * (1 / 100) / pixel_width scenario) = 0"
    using floor_pi_tenth by (simp add: py_int_def scenario_def)
  then show ?thesis
    by (simp add: plot_pos_def scenario_def linspace_def ones_def correlate1d_wrap_def)
qed

lemma single_bin_centre_up: "intersect_polygon convex_intersection single_bin 0 0 0 = Inr 1"
  by (simp add: ip_eval single_bin_def square_centre_up no_polygon)

lemma single_bin_ring:
  "plot_pos convex_intersection single_bin 0 0 (1 / 20) = Inr ([0], [1])"
proof -
  have "py_int (2 * pi * (1 / 20) / pixel_width single_bin) = 1"
    using floor_pi_half by (simp add: py_int_def single_bin_def)
  moreover have "pixel_width single_bin \<noteq> 0" "oversample_bins single_bin = 1"
    by (simp_all add: single_bin_def)
  ultimately show ?thesis
    by (simp add: plot_pos_def linspace_def ones_def correlate1d_wrap_def single_bin_centre_up)
qed

subsection \<open>The number and the spacing of the angles\<close>




subsection \<open>The smoothing\<close>

text \<open>
  Claim C4. When \<open>plot_pos\<close> returns, there is the sequence of the raw values of
  \<open>intersect_polygon\<close>, one for each angle and in the order of the angles, and the
  returned lengths are its circular moving average of window \<open>oversample_bins\<close>: the
  sum with an all-ones kernel, wrapped around, divided by \<open>oversample_bins\<close>. The
  window of value \<open>i\<close> starts \<open>oversample_bins div 2\<close> places before \<open>i\<close>; an odd window
  is centred on \<open>i\<close>.
\<close>

theorem plot_pos_smoothing:
  assumes "0 < oversample_bins self"
    and "plot_pos intersection self impact_x impact_y radius = Inr (ang, l)"
  shows "\<exists>raw. length raw = length ang \<and>
           (\<forall>i < length ang.
              intersect_polygon intersection self impact_x impact_y (ang ! i) = Inr (raw ! i)) \<and>
           l = circular_moving_average (nat (oversample_bins self)) raw"
proof -
  let ?k = "nat (oversample_bins self)"
  from plot_pos_Inr [OF assms(2)] obtain raw l' where
    raw: "fill_lengths (intersect_polygon intersection self impact_x impact_y) ang = Inr raw"
    and l': "correlate1d_wrap raw (replicate ?k 1) = Inr l'"
    and l: "l = map (\<lambda>v. v / real_of_int (oversample_bins self)) l'"
    by blast
  have k: "0 < ?k" using assms(1) by simp
  have rk: "real_of_int (oversample_bins self) = real ?k" using assms(1) by simp
  have "l' = map (\<lambda>i. sum_list (map (\<lambda>j. raw ! nat ((int i + int j - int (?k div 2)) mod int (length raw)))
                                  [0..<?k]))
                  [0..<length raw]"
    using l' correlate1d_wrap_ones [OF k, of raw] by simp
  then have "l = circular_moving_average ?k raw"
    unfolding l rk circular_moving_average_def by (simp add: comp_def)
  then show ?thesis
    using fill_lengths_Inr [OF raw] by blast
qed

theorem plot_pos_smoothing_witness:
  "0 < oversample_bins coarse \<and>
   plot_pos convex_intersection coarse 0 (1 / 2) 1 = Inr ([0, pi, 2 * pi], [5 / 6, 5 / 6, 5 / 6]) \<and>
   (\<exists>raw. intersect_polygon convex_intersection coarse 0 (1 / 2) pi = Inr (raw ! 1) \<and>
      [5 / 6, 5 / 6, 5 / 6] = circular_moving_average (nat (oversample_bins coarse)) raw)"
proof -
  have h: "0 < oversample_bins coarse" by (simp add: coarse_def)
  from plot_pos_smoothing [OF h coarse_profile] obtain raw where
    r: "\<forall>i < length [0, pi, 2 * pi].
          intersect_polygon convex_intersection coarse 0 (1 / 2) ([0, pi, 2 * pi] ! i) = Inr (raw ! i)"
       "[5 / 6, 5 / 6, 5 / 6] = circular_moving_average (nat (oversample_bins coarse)) raw"
    by blast
  have "(1::nat) < length [0, pi, 2 * pi]" by simp
  with r(1) have "intersect_polygon convex_intersection coarse 0 (1 / 2) ([0, pi, 2 * pi] ! 1) = Inr (raw ! 1)"
    by blast
  then have "intersect_polygon convex_intersection coarse 0 (1 / 2) pi = Inr (raw ! 1)" by simp
  then show ?thesis using h coarse_profile r(2) by blast
qed

section \<open>Properties of the predicted image\<close>

lemma elementwise_equal:
  "length xs = length ys \<Longrightarrow> elementwise f xs ys = Inr (map (\<lambda>(x, y). f x y) (zip xs ys))"
  by (simp add: elementwise_def)

lemma elementwise_Inr:
  assumes "elementwise f xs ys = Inr zs"
  shows "\<forall>z \<in> set zs. \<exists>x y. z = f x y"
  using assms by (fastforce simp: elementwise_def split: if_splits)

lemma arctan2_range: "- pi < arctan2 x1 x2 \<and> arctan2 x1 x2 \<le> pi"
proof -
  have l: "- (pi / 2) < arctan (x1 / x2)" and u: "arctan (x1 / x2) < pi / 2"
    by (rule arctan_lbound, rule arctan_ubound)
  have neg: "arctan (x1 / x2) \<le> 0" if "x2 < 0" "0 \<le> x1"
  proof -
    have "x1 / x2 \<le> 0" using that by (simp add: divide_nonneg_neg)
    then show ?thesis by (simp add: arctan_le_zero_iff)
  qed
  have pos: "0 < arctan (x1 / x2)" if "x2 < 0" "x1 < 0"
  proof -
    have "0 < x1 / x2" using that by (simp add: divide_neg_neg)
    then show ?thesis by (simp add: zero_less_arctan_iff)
  qed
  show ?thesis
    using l u neg pos pi_gt_zero by (auto simp: arctan2_def)
qed

lemma pos_to_angle_equal:
  "length pixel_x = length pixel_y \<Longrightarrow>
   pos_to_angle centre_x centre_y pixel_x pixel_y =
     Inr (map (\<lambda>(x, y). arctan2 (x - centre_x) (y - centre_y)) (zip pixel_x pixel_y))"
  by (simp add: pos_to_angle_def elementwise_equal zip_map_map comp_def case_prod_unfold)

lemma interp_at_inside:
  "hd xp \<le> x \<Longrightarrow> x \<le> last xp \<Longrightarrow> interp_at xp fp x = interp_search x xp fp"
  by (simp add: interp_at_def)

text \<open>
  For pixel arrays of one length and a profile that is not empty, the call returns and
  the predicted image is computed pixel by pixel.
\<close>

lemma image_prediction_equal:
  assumes len: "length pixel_x = length pixel_y"
    and pp: "plot_pos intersection self impact_x impact_y radius = Inr (ang_prof, profile)"
    and ne: "ang_prof \<noteq> []"
  shows "image_prediction intersection self impact_x impact_y centre_x centre_y radius width
           pixel_x pixel_y =
         Inr (map (\<lambda>(x, y).
                interp_at ang_prof profile (arctan2 (x - centre_x) (y - centre_y) + pi) *
                exp (- (((sqrt ((x - centre_x)\<^sup>2 + (y - centre_y)\<^sup>2) - radius) / width)\<^sup>2)) /
                sqrt (pi * 2 * width\<^sup>2))
              (zip pixel_x pixel_y))"
proof -
  have lp: "length profile = length ang_prof"
    using pp by (auto simp: plot_pos_def Let_def correlate1d_wrap_def
        split: if_splits sum.splits dest!: fill_lengths_Inr)
  have i: "interp xs ang_prof profile = Inr (map (interp_at ang_prof profile) xs)" for xs
    using ne lp by (simp add: interp_def)
  show ?thesis
    using len
    by (simp add: image_prediction_def pos_to_angle_equal pp i elementwise_equal
        zip_map_map comp_def case_prod_unfold Let_def zip_map1 zip_map2 map_zip_map map_zip_map2)
       (rule nth_equalityI, auto)
qed

lemma coarse_image:
  "image_prediction convex_intersection coarse 0 (1 / 2) 0 0 1 1 [0, 1] [1, 0] =
     Inr [5 / 6 / sqrt (2 * pi), 5 / 6 / sqrt (2 * pi)]"
proof -
  have a1: "arctan2 0 1 = 0" and a2: "arctan2 1 0 = pi / 2"
    by (simp_all add: arctan2_def)
  have i1: "interp_at [0, pi, 2 * pi] [5 / 6, 5 / 6, 5 / 6] pi = 5 / 6"
    by (simp add: interp_at_def)
  have i2: "interp_at [0, pi, 2 * pi] [5 / 6, 5 / 6, 5 / 6] (pi / 2 + pi) = 5 / 6"
    by (simp add: interp_at_def)
  have i3: "interp_at [0, pi, 2 * pi] [5 / 6, 5 / 6, 5 / 6] (3 * pi / 2) = 5 / 6"
    using i2 by (simp add: algebra_simps)
  have "image_prediction convex_intersection coarse 0 (1 / 2) 0 0 1 1 [0, 1] [1, 0] =
        Inr (map (\<lambda>(x, y).
                interp_at [0, pi, 2 * pi] [5 / 6, 5 / 6, 5 / 6] (arctan2 (x - 0) (y - 0) + pi) *
                exp (- (((sqrt ((x - 0)\<^sup>2 + (y - 0)\<^sup>2) - 1) / 1)\<^sup>2)) /
                sqrt (pi * 2 * 1\<^sup>2))
              (zip [0, 1] [1, 0]))"
    by (rule image_prediction_equal [OF _ coarse_profile]) simp_all
  also have "\<dots> = Inr [5 / 6 / sqrt (2 * pi), 5 / 6 / sqrt (2 * pi)]"
    by (simp add: a1 a2 i1 i3 mult.commute [of pi 2])
  finally show ?thesis .
qed

lemma scenario_small_ring_image:
  "image_prediction convex_intersection scenario 0 0 0 0 (1 / 100) 1 [0] [1] = Inl ValueError"
  by (simp add: image_prediction_def pos_to_angle_def elementwise_def scenario_small_ring interp_def)

text \<open>
  Claim C5. For pixel arrays of one length and a width that is not zero, when
  \<open>image_prediction\<close> returns: \<open>pos_to_angle\<close> is \<open>arctan2\<close> of the x difference (first
  argument) and the y difference (second argument), pixel by pixel; the result has one
  value per pixel; and the value of pixel \<open>i\<close> is the interpolation of the profile of
  \<open>plot_pos\<close> at that angle plus \<open>pi\<close>, times
  \<open>exp (- ((radial_dist - radius) / width)\<^sup>2) / sqrt (2 pi width\<^sup>2)\<close>.
\<close>

theorem image_prediction_formula:
  assumes "length pixel_x = length pixel_y" and "width \<noteq> 0"
    and "image_prediction intersection self impact_x impact_y centre_x centre_y radius width
           pixel_x pixel_y = Inr pred"
  shows "pos_to_angle centre_x centre_y pixel_x pixel_y =
           Inr (map (\<lambda>(x, y). arctan2 (x - centre_x) (y - centre_y)) (zip pixel_x pixel_y)) \<and>
         (\<exists>ang_prof profile.
            plot_pos intersection self impact_x impact_y radius = Inr (ang_prof, profile) \<and>
            length pred = length pixel_x \<and>
            (\<forall>i < length pixel_x.
               pred ! i =
                 interp_at ang_prof profile
                   (arctan2 (pixel_x ! i - centre_x) (pixel_y ! i - centre_y) + pi) *
                 exp (- (((sqrt ((pixel_x ! i - centre_x)\<^sup>2 + (pixel_y ! i - centre_y)\<^sup>2) - radius)
                          / width)\<^sup>2)) /
                 sqrt (2 * pi * width\<^sup>2)))"
proof -
  from assms(3) obtain ang_prof profile where
    pp: "plot_pos intersection self impact_x impact_y radius = Inr (ang_prof, profile)"
    by (auto simp: image_prediction_def Let_def split: sum.splits)
  have ne: "ang_prof \<noteq> []"
    using assms(3) pp
    by (auto simp: image_prediction_def Let_def interp_def split: sum.splits if_splits)
  have pred: "pred = map (\<lambda>(x, y).
                interp_at ang_prof profile (arctan2 (x - centre_x) (y - centre_y) + pi) *
                exp (- (((sqrt ((x - centre_x)\<^sup>2 + (y - centre_y)\<^sup>2) - radius) / width)\<^sup>2)) /
                sqrt (pi * 2 * width\<^sup>2))
              (zip pixel_x pixel_y)"
    using image_prediction_equal [OF assms(1) pp ne, of centre_x centre_y width] assms(3) by simp
  have len: "length pred = length pixel_x"
    using pred assms(1) by simp
  have nth: "pred ! i =
                 interp_at ang_prof profile
                   (arctan2 (pixel_x ! i - centre_x) (pixel_y ! i - centre_y) + pi) *
                 exp (- (((sqrt ((pixel_x ! i - centre_x)\<^sup>2 + (pixel_y ! i - centre_y)\<^sup>2) - radius)
                          / width)\<^sup>2)) /
                 sqrt (2 * pi * width\<^sup>2)"
    if "i < length pixel_x" for i
    using that assms(1) unfolding pred by (simp add: mult.commute)
  show ?thesis
    using pos_to_angle_equal [OF assms(1)] pp len nth by blast
qed

theorem image_prediction_formula_witness:
  "length [0, 1 :: real] = length [1, 0 :: real] \<and> (1::real) \<noteq> 0 \<and>
   image_prediction convex_intersection coarse 0 (1 / 2) 0 0 1 1 [0, 1] [1, 0] =
     Inr [5 / 6 / sqrt (2 * pi), 5 / 6 / sqrt (2 * pi)] \<and>
   pos_to_angle 0 0 [0, 1] [1, 0] = Inr [arctan2 0 1, arctan2 1 0] \<and>
   length [5 / 6 / sqrt (2 * pi), 5 / 6 / sqrt (2 * pi)] = length [0, 1 :: real]"
proof -
  have h1: "length [0, 1 :: real] = length [1, 0 :: real]" by simp
  have h2: "(1::real) \<noteq> 0" by simp
  from image_prediction_formula [OF h1 h2 coarse_image]
  have "pos_to_angle 0 0 [0, 1] [1, 0] =
          Inr (map (\<lambda>(x, y). arctan2 (x - 0) (y - 0)) (zip [0, 1] [1, 0]))"
    by blast
  then show ?thesis using coarse_image by simp
qed

text \<open>
  Claim C9, amended. Every angle that \<open>pos_to_angle\<close> returns, with \<open>pi\<close> added, lies
  in the closed interval from 0 to \<open>2 pi\<close>. When the profile of \<open>plot_pos\<close> has at least
  two bins, its angles run from 0 to \<open>2 pi\<close>, so the interpolation at that angle takes
  neither of its two clamping branches.
\<close>

theorem lookup_angle_in_domain:
  assumes "pos_to_angle centre_x centre_y pixel_x pixel_y = Inr ang"
  shows "\<forall>a \<in> set ang. 0 \<le> a + pi \<and> a + pi \<le> 2 * pi \<and>
           (\<forall>intersection self impact_x impact_y radius ang_prof profile.
              plot_pos intersection self impact_x impact_y radius = Inr (ang_prof, profile) \<and>
              2 \<le> length ang_prof \<longrightarrow>
              hd ang_prof = 0 \<and> last ang_prof = 2 * pi \<and>
              interp_at ang_prof profile (a + pi) = interp_search (a + pi) ang_prof profile)"
proof
  fix a assume "a \<in> set ang"
  then obtain x1 x2 where a: "a = arctan2 x1 x2"
    using assms elementwise_Inr unfolding pos_to_angle_def Let_def by blast
  have r: "0 \<le> a + pi" "a + pi \<le> 2 * pi"
    using arctan2_range [of x1 x2] a by simp_all
  have "hd ang_prof = 0 \<and> last ang_prof = 2 * pi \<and>
        interp_at ang_prof profile (a + pi) = interp_search (a + pi) ang_prof profile"
    if "plot_pos intersection self impact_x impact_y radius = Inr (ang_prof, profile)"
      and "2 \<le> length ang_prof"
    for intersection self impact_x impact_y radius ang_prof profile
    using plot_pos_profile_ends [OF that] r by (simp add: interp_at_inside)
  then show "0 \<le> a + pi \<and> a + pi \<le> 2 * pi \<and>
           (\<forall>intersection self impact_x impact_y radius ang_prof profile.
              plot_pos intersection self impact_x impact_y radius = Inr (ang_prof, profile) \<and>
              2 \<le> length ang_prof \<longrightarrow>
              hd ang_prof = 0 \<and> last ang_prof = 2 * pi \<and>
              interp_at ang_prof profile (a + pi) = interp_search (a + pi) ang_prof profile)"
    using r by blast
qed

theorem lookup_angle_in_domain_witness:
  "pos_to_angle 0 0 [0, 1] [1, 0] = Inr [0, pi / 2] \<and>
   plot_pos convex_intersection coarse 0 (1 / 2) 1 = Inr ([0, pi, 2 * pi], [5 / 6, 5 / 6, 5 / 6]) \<and>
   2 \<le> length [0, pi, 2 * pi] \<and>
   0 \<le> pi / 2 + pi \<and> pi / 2 + pi \<le> 2 * pi \<and>
   interp_at [0, pi, 2 * pi] [5 / 6, 5 / 6, 5 / 6] (pi / 2 + pi) =
     interp_search (pi / 2 + pi) [0, pi, 2 * pi] [5 / 6, 5 / 6, 5 / 6]"
proof -
  have h: "pos_to_angle 0 0 [0, 1] [1, 0] = Inr [0, pi / 2]"
    by (simp add: pos_to_angle_def elementwise_def arctan2_def)
  have l: "2 \<le> length [0, pi, 2 * pi]" by simp
  have m: "pi / 2 \<in> set [0, pi / 2]" by simp
  from lookup_angle_in_domain [OF h, THEN bspec, OF m]
  have r: "0 \<le> pi / 2 + pi" "pi / 2 + pi \<le> 2 * pi"
    and p: "\<And>intersection self impact_x impact_y radius ang_prof profile.
              plot_pos intersection self impact_x impact_y radius = Inr (ang_prof, profile) \<and>
              2 \<le> length ang_prof \<Longrightarrow>
              interp_at ang_prof profile (pi / 2 + pi) = interp_search (pi / 2 + pi) ang_prof profile"
    by blast+
  have "interp_at [0, pi, 2 * pi] [5 / 6, 5 / 6, 5 / 6] (pi / 2 + pi) =
        interp_search (pi / 2 + pi) [0, pi, 2 * pi] [5 / 6, 5 / 6, 5 / 6]"
    using p [of convex_intersection coarse 0 "1 / 2" 1] coarse_profile l by blast
  with coarse_profile l h r show ?thesis by blast
qed

text \<open>
  Claim C9, as stated, fails for small rings. Without oversampling a ring of radius
  0.05 has the single profile angle 0: the lookup angle \<open>pi\<close> of a pixel straight above
  the centre lies beyond it and the interpolation clamps to the last value. In the
  scenario of the spec a ring of radius 0.01 has an empty profile and the interpolation
  raises.
\<close>

theorem lookup_angle_in_domain_counterexample:
  "pos_to_angle 0 0 [0] [1] = Inr [0] \<and>
   plot_pos convex_intersection single_bin 0 0 (1 / 20) = Inr ([0], [1]) \<and>
   last [0 :: real] < 0 + pi \<and>
   interp_at [0] [1] (0 + pi) = last [1] \<and>
   plot_pos convex_intersection scenario 0 0 (1 / 100) = Inr ([], []) \<and>
   image_prediction convex_intersection scenario 0 0 0 0 (1 / 100) 1 [0] [1] = Inl ValueError"
proof -
  have "pos_to_angle 0 0 [0] [1] = Inr [0]"
    by (simp add: pos_to_angle_def elementwise_def arctan2_def)
  moreover have "interp_at [0] [1] (0 + pi) = last [1]"
    by (simp add: interp_at_def)
  ultimately show ?thesis
    using single_bin_ring scenario_small_ring scenario_small_ring_image by simp
qed

end
